theory Spec2Isabelle
  imports Complex_Main
begin

section \<open>Data model of \<open>src/components/Game.tsx\<close>\<close>

text \<open>
  The game keeps its simulation state in React refs; the React state variables
  (\<open>score\<close>, \<open>wave\<close>, \<open>towers\<close>, \<open>cities\<close>, \<open>gameState\<close>) are mirrors that are written
  together with the refs and are only read by the JSX. The model keeps one copy.
  JavaScript numbers are idealised: coordinates, times and lives are \<open>real\<close>, the
  integral quantities (score, wave, ammo) are \<open>int\<close>. The fields \<open>id\<close> and \<open>color\<close> of the
  entities are never read by the game logic and are left out, and so is the particle
  collection, which is only written by the simulation and read by the drawing code.
  Record fields \<open>x\<close>, \<open>y\<close> of the source are called \<open>px\<close>, \<open>py\<close>.
\<close>

datatype GameState = MENU | PLAYING | PAUSED | WAVE_COMPLETE | GAME_OVER | VICTORY

record Point =
  px :: real
  py :: real

record Entity = Point +
  vx :: real
  vy :: real
  dead :: bool

record Enemy = Entity +
  targetIndex :: int
  speed :: real
  trail :: "Point list"

record Interceptor = Entity +
  target :: Point
  ispeed :: real
  itrail :: "Point list"
  originTowerIndex :: nat

record Explosion = Point +
  radius :: real
  maxRadius :: real
  growthRate :: real
  life :: real

record FloatingText = Point +
  amount :: int
  ftLife :: real
  ftVy :: real

record City = Point +
  alive :: bool

record Tower = City +
  ammo :: int
  maxAmmo :: int

text \<open>
  A pending \<open>setTimeout\<close> callback of the wave-clear settlement: the time at which it
  becomes due and the game state it writes.
\<close>

record Timeout =
  due :: real
  sets :: GameState

record State =
  gameState :: GameState
  score :: int
  wave :: int
  towers :: "Tower list"
  cities :: "City list"
  enemies :: "Enemy list"
  interceptors :: "Interceptor list"
  explosions :: "Explosion list"
  floatingTexts :: "FloatingText list"
  lastTime :: real
  spawnTimer :: real
  isWaveClearing :: bool
  isEndlessMode :: bool
  waveBonus :: int
  timeouts :: "Timeout list"

text \<open>The canvas as the code reads it: its size and the offset of its bounding rectangle.\<close>

record Canvas =
  width :: real
  height :: real
  rectLeft :: real
  rectTop :: real

section \<open>Helper functions\<close>

definition distance :: "'a Point_scheme \<Rightarrow> 'b Point_scheme \<Rightarrow> real" where
  "distance p1 p2 = sqrt ((px p2 - px p1)\<^sup>2 + (py p2 - py p1)\<^sup>2)"

text \<open>\<open>Math.atan2(y, x)\<close> on real numbers.\<close>

definition atan2 :: "real \<Rightarrow> real \<Rightarrow> real" where
  "atan2 b a =
     (if 0 < a then arctan (b / a)
      else if a < 0 \<and> 0 \<le> b then arctan (b / a) + pi
      else if a < 0 then arctan (b / a) - pi
      else if 0 < b then pi / 2
      else if b < 0 then - (pi / 2)
      else 0)"

definition initialTowers :: "Tower list" where
  "initialTowers =
     [\<lparr>px = 0, py = 0, alive = True, ammo = 20, maxAmmo = 20\<rparr>,
      \<lparr>px = 0, py = 0, alive = True, ammo = 40, maxAmmo = 40\<rparr>,
      \<lparr>px = 0, py = 0, alive = True, ammo = 20, maxAmmo = 20\<rparr>]"

definition initialCities :: "City list" where
  "initialCities = replicate 6 \<lparr>px = 0, py = 0, alive = True\<rparr>"

section \<open>Input handling\<close>

definition inputTowerPositions :: "Canvas \<Rightarrow> (Point \<times> nat) list" where
  "inputTowerPositions cv =
     (let towerY = height cv - 60 in
      [(\<lparr>px = width cv * 0.1, py = towerY\<rparr>, 0),
       (\<lparr>px = width cv * 0.5, py = towerY\<rparr>, 1),
       (\<lparr>px = width cv * 0.9, py = towerY\<rparr>, 2)])"

text \<open>
  The \<open>forEach\<close> of \<open>handleInput\<close> over the tower positions. The pair
  \<open>(nearestTower, minDist)\<close> starts as \<open>(-1, Infinity)\<close>, written \<open>None\<close>. Reading
  \<open>towersRef.current[t.idx].alive\<close> of a missing tower throws a TypeError: the outer
  \<open>None\<close>.
\<close>

fun nearestLoop ::
  "Tower list \<Rightarrow> real \<Rightarrow> real \<Rightarrow> (Point \<times> nat) list \<Rightarrow> (nat \<times> real) option
     \<Rightarrow> (nat \<times> real) option option" where
  "nearestLoop ts x y [] best = Some best"
| "nearestLoop ts x y ((t, idx) # rest) best =
     (let d = sqrt ((px t - x)\<^sup>2 + (py t - y)\<^sup>2) in
      if (case best of None \<Rightarrow> True | Some (n, minDist) \<Rightarrow> d < minDist) then
        (if idx < length ts then
           (if alive (ts ! idx) \<and> 0 < ammo (ts ! idx)
            then nearestLoop ts x y rest (Some (idx, d))
            else nearestLoop ts x y rest best)
         else None)
      else nearestLoop ts x y rest best)"

definition handleInput :: "Canvas option \<Rightarrow> real \<Rightarrow> real \<Rightarrow> State \<Rightarrow> State option" where
  "handleInput canvas clientX clientY s =
     (if gameState s \<noteq> PLAYING then Some s
      else case canvas of
        None \<Rightarrow> Some s
      | Some cv \<Rightarrow>
          (let x = clientX - rectLeft cv;
               y = clientY - rectTop cv;
               towerPositions = inputTowerPositions cv
           in case nearestLoop (towers s) x y towerPositions None of
                None \<Rightarrow> None
              | Some None \<Rightarrow> Some s
              | Some (Some (nearestTower, minDist)) \<Rightarrow>
                  (let tPos = fst (towerPositions ! nearestTower);
                       speed = 15;
                       angle = atan2 (y - py tPos) (x - px tPos)
                   in Some (s\<lparr>interceptors := interceptors s @
                                [\<lparr>px = px tPos, py = py tPos,
                                  vx = cos angle * speed, vy = sin angle * speed,
                                  dead = False,
                                  target = \<lparr>px = x, py = y\<rparr>,
                                  ispeed = speed, itrail = [],
                                  originTowerIndex = nearestTower\<rparr>],
                              towers := (towers s)[nearestTower :=
                                (towers s ! nearestTower)
                                  \<lparr>ammo := ammo (towers s ! nearestTower) - 1\<rparr>]\<rparr>))))"

section \<open>The simulation step\<close>

definition spawnExplosion :: "real \<Rightarrow> real \<Rightarrow> State \<Rightarrow> State" where
  "spawnExplosion x y s =
     s\<lparr>explosions := explosions s @
          [\<lparr>px = x, py = y, radius = 0, maxRadius = 60, growthRate = 4, life = 1\<rparr>]\<rparr>"

definition addScore :: "int \<Rightarrow> real \<Rightarrow> real \<Rightarrow> State \<Rightarrow> State" where
  "addScore n x y s =
     s\<lparr>score := score s + n,
       floatingTexts := floatingTexts s @
          [\<lparr>px = x, py = y, amount = n, ftLife = 1, ftVy = - 1\<rparr>]\<rparr>"

text \<open>The clamped time delta that \<open>update\<close> computes at its start.\<close>

definition safeDt :: "real \<Rightarrow> State \<Rightarrow> real" where
  "safeDt time s = (let dt = time - lastTime s in min dt 50)"

definition cityPositions :: "Canvas \<Rightarrow> Point list" where
  "cityPositions cv =
     (let groundY = height cv - 40; cityY = groundY - 10 in
      map (\<lambda>x. \<lparr>px = x, py = cityY\<rparr>)
        [width cv * 0.2, width cv * 0.3, width cv * 0.4,
         width cv * 0.6, width cv * 0.7, width cv * 0.8])"

definition towerPositions :: "Canvas \<Rightarrow> Point list" where
  "towerPositions cv =
     (let groundY = height cv - 40; towerY = groundY - 20 in
      [\<lparr>px = width cv * 0.1, py = towerY\<rparr>,
       \<lparr>px = width cv * 0.5, py = towerY\<rparr>,
       \<lparr>px = width cv * 0.9, py = towerY\<rparr>])"

text \<open>
  \<open>xs.map((c, i) => c.alive ? i + k : -1).filter(i => i !== -1)\<close>, for the cities
  (\<open>k = 0\<close>) and the towers (\<open>k = 6\<close>).
\<close>

definition aliveIndices :: "int \<Rightarrow> 'a City_scheme list \<Rightarrow> int list" where
  "aliveIndices k xs =
     filter (\<lambda>i. i \<noteq> - 1)
       (map (\<lambda>(i, c). if alive c then int i + k else - 1) (enumerate 0 xs))"

text \<open>
  The spawn block. \<open>rndTarget\<close> and \<open>rndX\<close> are the two values of \<open>Math.random()\<close> that
  the block draws. A target index outside the position tables reads a property of
  \<open>undefined\<close> and throws: \<open>None\<close>.
\<close>

definition spawnEnemies :: "real \<Rightarrow> Canvas \<Rightarrow> real \<Rightarrow> real \<Rightarrow> State \<Rightarrow> State option" where
  "spawnEnemies time cv rndTarget rndX s =
     (if \<not> isWaveClearing s then
        (let waveDifficulty = wave s;
             spawnRate = max 500 (2000 - real_of_int waveDifficulty * 150);
             speedBase = 1 + real_of_int waveDifficulty * 0.2
         in if time - spawnTimer s > spawnRate then
              (let s1 = s\<lparr>spawnTimer := time\<rparr>;
                   aliveCities = aliveIndices 0 (cities s1);
                   aliveTowers = aliveIndices 6 (towers s1);
                   possibleTargets = aliveCities @ aliveTowers
               in if length possibleTargets > 0 then
                    (let k = \<lfloor>rndTarget * real (length possibleTargets)\<rfloor> in
                     if 0 \<le> k \<and> nat k < length possibleTargets then
                       (let targetIdx = possibleTargets ! nat k in
                        if (if targetIdx < 6 then 0 \<le> targetIdx else targetIdx - 6 < 3) then
                          (let t = (if targetIdx < 6 then cityPositions cv ! nat targetIdx
                                    else towerPositions cv ! nat (targetIdx - 6));
                               tx = px t; ty = py t;
                               startX = rndX * width cv;
                               startY = - 20;
                               angle = atan2 (ty - startY) (tx - startX)
                           in Some (s1\<lparr>enemies := enemies s1 @
                                [\<lparr>px = startX, py = startY,
                                  vx = cos angle * speedBase, vy = sin angle * speedBase,
                                  dead = False, targetIndex = targetIdx,
                                  speed = speedBase, trail = []\<rparr>]\<rparr>))
                        else None)
                     else None)
                  else Some s1)
            else Some s)
      else Some s)"

text \<open>
  The wave-clear check and settlement. \<open>setTimeout(f, 2000)\<close> is recorded as a pending
  callback that becomes due 2000 ms after the time of the tick.
\<close>

definition waveBonusOf :: "Tower list \<Rightarrow> int" where
  "waveBonusOf ts = fold (\<lambda>t bonus. if alive t then bonus + ammo t * 5 else bonus) ts 0"

definition checkWaveClear :: "real \<Rightarrow> Canvas \<Rightarrow> State \<Rightarrow> State" where
  "checkWaveClear time cv s =
     (let targetScore = wave s * 200;
          s1 = (if score s \<ge> targetScore \<and> \<not> isWaveClearing s
                then s\<lparr>isWaveClearing := True\<rparr> else s)
      in if isWaveClearing s1 \<and> length (enemies s1) = 0 \<and> length (explosions s1) = 0 then
           (let bonus = waveBonusOf (towers s1);
                s2 = addScore bonus (width cv / 2) (height cv / 2) (s1\<lparr>waveBonus := bonus\<rparr>);
                s3 = (if score s2 \<ge> 1000 \<and> gameState s2 \<noteq> VICTORY \<and> \<not> isEndlessMode s2
                      then s2\<lparr>timeouts := timeouts s2 @ [\<lparr>due = time + 2000, sets = VICTORY\<rparr>]\<rparr>
                      else s2\<lparr>timeouts := timeouts s2 @
                                  [\<lparr>due = time + 2000, sets = WAVE_COMPLETE\<rparr>]\<rparr>)
            in s3\<lparr>isWaveClearing := False\<rparr>)
         else s1)"

text \<open>One interceptor of the \<open>forEach\<close> over the interceptors.\<close>

definition stepInterceptor :: "Interceptor \<Rightarrow> State \<Rightarrow> Interceptor \<times> State" where
  "stepInterceptor p s =
     (let p1 = p\<lparr>px := px p + vx p, py := py p + vy p\<rparr>;
          p2 = p1\<lparr>itrail := itrail p1 @ [\<lparr>px = px p1, py = py p1\<rparr>]\<rparr>;
          p3 = (if length (itrail p2) > 10 then p2\<lparr>itrail := tl (itrail p2)\<rparr> else p2)
      in if distance p3 (target p3) < ispeed p3
         then (p3\<lparr>dead := True\<rparr>, spawnExplosion (px (target p3)) (py (target p3)) s)
         else (p3, s))"

fun stepInterceptors :: "Interceptor list \<Rightarrow> State \<Rightarrow> Interceptor list \<times> State" where
  "stepInterceptors [] s = ([], s)"
| "stepInterceptors (p # ps) s =
     (let (p', s1) = stepInterceptor p s;
          (ps', s2) = stepInterceptors ps s1
      in (p' # ps', s2))"

definition stepExplosion :: "Explosion \<Rightarrow> Explosion" where
  "stepExplosion e =
     (if radius e < maxRadius e then e\<lparr>radius := radius e + growthRate e\<rparr>
      else e\<lparr>life := life e - 0.05\<rparr>)"

text \<open>
  The \<open>for (const exp of explosionsRef.current)\<close> loop of one enemy, up to its
  \<open>break\<close>: the explosion that destroys the enemy, if any.
\<close>

fun blastLoop :: "Enemy \<Rightarrow> Explosion list \<Rightarrow> Explosion option" where
  "blastLoop e [] = None"
| "blastLoop e (ex # rest) =
     (if distance e ex < radius ex then Some ex else blastLoop e rest)"

text \<open>
  One enemy of the \<open>forEach\<close> over the enemies. Reading \<open>.alive\<close> of a city or tower
  that the arrays do not hold throws a TypeError: \<open>None\<close>.
\<close>

definition stepEnemy :: "real \<Rightarrow> Enemy \<Rightarrow> State \<Rightarrow> (Enemy \<times> State) option" where
  "stepEnemy groundY e s =
     (let e1 = e\<lparr>px := px e + vx e, py := py e + vy e\<rparr>;
          e2 = e1\<lparr>trail := trail e1 @ [\<lparr>px = px e1, py = py e1\<rparr>]\<rparr>;
          e3 = (if length (trail e2) > 15 then e2\<lparr>trail := tl (trail e2)\<rparr> else e2);
          (e4, s1) = (case blastLoop e3 (explosions s) of
                        Some ex \<Rightarrow>
                          (e3\<lparr>dead := True\<rparr>,
                           spawnExplosion (px e3) (py e3) (addScore 20 (px e3) (py e3) s))
                      | None \<Rightarrow> (e3, s))
      in if \<not> dead e4 \<and> py e4 \<ge> groundY - 5 then
           (let e5 = e4\<lparr>dead := True\<rparr>;
                s2 = spawnExplosion (px e5) (py e5) s1
            in if targetIndex e5 < 6 then
                 (let cityIdx = targetIndex e5 in
                  if 0 \<le> cityIdx \<and> nat cityIdx < length (cities s2) then
                    (if alive (cities s2 ! nat cityIdx) then
                       (let s3 = s2\<lparr>cities := (cities s2)[nat cityIdx :=
                                      (cities s2 ! nat cityIdx)\<lparr>alive := False\<rparr>]\<rparr>
                        in if list_all (\<lambda>c. \<not> alive c) (cities s3)
                           then Some (e5, s3\<lparr>gameState := GAME_OVER\<rparr>)
                           else Some (e5, s3))
                     else Some (e5, s2))
                  else None)
               else
                 (let towerIdx = targetIndex e5 - 6 in
                  if nat towerIdx < length (towers s2) then
                    (if alive (towers s2 ! nat towerIdx) then
                       Some (e5, s2\<lparr>towers := (towers s2)[nat towerIdx :=
                                      (towers s2 ! nat towerIdx)\<lparr>alive := False, ammo := 0\<rparr>]\<rparr>)
                     else Some (e5, s2))
                  else None))
         else Some (e4, s1))"

fun stepEnemies :: "real \<Rightarrow> Enemy list \<Rightarrow> State \<Rightarrow> (Enemy list \<times> State) option" where
  "stepEnemies groundY [] s = Some ([], s)"
| "stepEnemies groundY (e # es) s =
     (case stepEnemy groundY e s of
        None \<Rightarrow> None
      | Some (e', s1) \<Rightarrow>
          (case stepEnemies groundY es s1 of
             None \<Rightarrow> None
           | Some (es', s2) \<Rightarrow> Some (e' # es', s2)))"

definition stepFloatingText :: "FloatingText \<Rightarrow> FloatingText" where
  "stepFloatingText t = t\<lparr>py := py t + ftVy t, ftLife := ftLife t - 0.015\<rparr>"

definition cleanup :: "State \<Rightarrow> State" where
  "cleanup s =
     s\<lparr>interceptors := filter (\<lambda>p. \<not> dead p) (interceptors s),
       enemies := filter (\<lambda>e. \<not> dead e) (enemies s),
       explosions := filter (\<lambda>e. life e > 0) (explosions s),
       floatingTexts := filter (\<lambda>t. ftLife t > 0) (floatingTexts s)\<rparr>"

text \<open>
  \<open>update(time)\<close>, without the drawing. The canvas (or its 2d context) may be missing,
  in which case only \<open>lastTimeRef\<close> is written.
\<close>

definition update :: "real \<Rightarrow> Canvas option \<Rightarrow> real \<Rightarrow> real \<Rightarrow> State \<Rightarrow> State option" where
  "update time canvas rndTarget rndX s =
     (let dt = time - lastTime s;
          safeDt = min dt 50;
          s0 = s\<lparr>lastTime := time\<rparr>
      in case canvas of
           None \<Rightarrow> Some s0
         | Some cv \<Rightarrow>
             (let isPaused = (gameState s0 \<noteq> PLAYING);
                  groundY = height cv - 40
              in if \<not> isPaused then
                   (case spawnEnemies time cv rndTarget rndX s0 of
                      None \<Rightarrow> None
                    | Some s1 \<Rightarrow>
                        (let s2 = checkWaveClear time cv s1;
                             (ps, s3) = stepInterceptors (interceptors s2) s2;
                             s4 = s3\<lparr>interceptors := ps,
                                     explosions := map stepExplosion (explosions s3)\<rparr>
                         in case stepEnemies groundY (enemies s4) s4 of
                              None \<Rightarrow> None
                            | Some (es, s5) \<Rightarrow>
                                Some (cleanup
                                  (s5\<lparr>enemies := es,
                                      floatingTexts :=
                                        map stepFloatingText (floatingTexts s5)\<rparr>))))
                 else Some s0))"

section \<open>Game-state operations\<close>

definition initGame :: "real \<Rightarrow> State \<Rightarrow> State" where
  "initGame now s =
     s\<lparr>score := 0, wave := 1, isEndlessMode := False,
       towers := initialTowers, cities := initialCities,
       enemies := [], interceptors := [], explosions := [], floatingTexts := [],
       isWaveClearing := False, gameState := PLAYING, lastTime := now\<rparr>"

definition nextWave :: "real \<Rightarrow> State \<Rightarrow> State" where
  "nextWave now s =
     s\<lparr>towers := map (\<lambda>t. t\<lparr>alive := True, ammo := maxAmmo t\<rparr>) (towers s),
       wave := wave s + 1,
       isWaveClearing := False, gameState := PLAYING, lastTime := now\<rparr>"

text \<open>
  The \<open>onClick\<close> handlers of the buttons of the JSX. Only the handler of the pause
  button tests the game state. The handlers of the overlay buttons (\<open>initGame\<close>,
  \<open>nextWave\<close>, resume, quit, endless) run whenever their button is clicked: an overlay
  is rendered in its own game state, but it can stay mounted while its exit animation
  plays, so a handler may run after that state has been left.
\<close>

datatype Button =
  StartButton | PauseButton | ResumeButton | QuitButton
  | NextWaveButton | RestartButton | EndlessButton

fun click :: "Button \<Rightarrow> real \<Rightarrow> State \<Rightarrow> State" where
  "click StartButton now s = initGame now s"
| "click PauseButton now s =
     (if gameState s = PLAYING then s\<lparr>gameState := PAUSED\<rparr>
      else if gameState s = PAUSED then s\<lparr>gameState := PLAYING\<rparr>
      else s)"
| "click ResumeButton now s = s\<lparr>gameState := PLAYING\<rparr>"
| "click QuitButton now s = s\<lparr>gameState := MENU\<rparr>"
| "click NextWaveButton now s = nextWave now s"
| "click RestartButton now s = initGame now s"
| "click EndlessButton now s = nextWave now (s\<lparr>gameState := PLAYING, isEndlessMode := True\<rparr>)"

text \<open>The \<open>k\<close>-th pending \<open>setTimeout\<close> callback runs, once it is due.\<close>

definition runTimeout :: "real \<Rightarrow> nat \<Rightarrow> State \<Rightarrow> State" where
  "runTimeout now k s =
     (if k < length (timeouts s) \<and> due (timeouts s ! k) \<le> now
      then s\<lparr>gameState := sets (timeouts s ! k),
             timeouts := take k (timeouts s) @ drop (Suc k) (timeouts s)\<rparr>
      else s)"

text \<open>The state in which the component is mounted.\<close>

definition initialState :: State where
  "initialState =
     \<lparr>gameState = MENU, score = 0, wave = 1,
      towers = initialTowers, cities = initialCities,
      enemies = [], interceptors = [], explosions = [], floatingTexts = [],
      lastTime = 0, spawnTimer = 0, isWaveClearing = False, isEndlessMode = False,
      waveBonus = 0, timeouts = []\<rparr>"

text \<open>
  Everything that can happen to the state: an animation frame, a pointer or touch
  event on the canvas, a click on a button, a timer callback.
\<close>

datatype Event =
  Tick real "Canvas option" real real
  | Tap "Canvas option" real real
  | Click Button real
  | TimeoutFires real nat

fun step :: "Event \<Rightarrow> State \<Rightarrow> State option" where
  "step (Tick time canvas rndTarget rndX) s = update time canvas rndTarget rndX s"
| "step (Tap canvas clientX clientY) s = handleInput canvas clientX clientY s"
| "step (Click b now) s = Some (click b now s)"
| "step (TimeoutFires now k) s = Some (runTimeout now k s)"

fun run :: "Event list \<Rightarrow> State \<Rightarrow> State option" where
  "run [] s = Some s"
| "run (ev # evs) s = (case step ev s of None \<Rightarrow> None | Some s1 \<Rightarrow> run evs s1)"

inductive reachable :: "State \<Rightarrow> bool" where
  reachable_init: "reachable initialState"
| reachable_step: "reachable s \<Longrightarrow> step ev s = Some s1 \<Longrightarrow> reachable s1"

section \<open>Notions used to state the properties\<close>

text \<open>A tower can fire: it is in the array, alive, and has ammo left.\<close>

definition qualifies :: "Tower list \<Rightarrow> nat \<Rightarrow> bool" where
  "qualifies ts i = (i < length ts \<and> alive (ts ! i) \<and> 0 < ammo (ts ! i))"

text \<open>The distance \<open>d\<close> that \<open>handleInput\<close> computes between a tower position and the tap.\<close>

definition tapDist :: "real \<Rightarrow> real \<Rightarrow> Point \<Rightarrow> real" where
  "tapDist x y t = sqrt ((px t - x)\<^sup>2 + (py t - y)\<^sup>2)"

definition towerPos :: "Canvas \<Rightarrow> nat \<Rightarrow> Point" where
  "towerPos cv i = fst (inputTowerPositions cv ! i)"

text \<open>Concrete inputs: an 800 x 600 canvas, and the game right after the start button.\<close>

definition canvas0 :: Canvas where
  "canvas0 = \<lparr>width = 800, height = 600, rectLeft = 0, rectTop = 0\<rparr>"

definition playingState :: State where
  "playingState = initGame 0 initialState"

text \<open>\<open>citiesRef.current.every(c => !c.alive)\<close>\<close>

definition allCitiesDead :: "City list \<Rightarrow> bool" where
  "allCitiesDead cs = list_all (\<lambda>c. \<not> alive c) cs"

text \<open>
  What the enemy loop can do to the structures and the game state between two states:
  each city and tower is as before or has just been destroyed, and the game state is
  as before or \<open>GAME_OVER\<close>, the latter exactly when the last city has fallen.
\<close>

definition structuresDecay :: "State \<Rightarrow> State \<Rightarrow> bool" where
  "structuresDecay s s' \<longleftrightarrow>
     length (cities s') = length (cities s) \<and>
     (\<forall>i < length (cities s).
        cities s' ! i = cities s ! i \<or>
        (alive (cities s ! i) \<and> cities s' ! i = (cities s ! i)\<lparr>alive := False\<rparr>)) \<and>
     length (towers s') = length (towers s) \<and>
     (\<forall>i < length (towers s).
        towers s' ! i = towers s ! i \<or>
        (alive (towers s ! i) \<and> towers s' ! i = (towers s ! i)\<lparr>alive := False, ammo := 0\<rparr>)) \<and>
     (gameState s' = gameState s \<or> gameState s' = GAME_OVER) \<and>
     (gameState s' = GAME_OVER \<longrightarrow> gameState s = GAME_OVER \<or> allCitiesDead (cities s')) \<and>
     (allCitiesDead (cities s') \<and> \<not> allCitiesDead (cities s) \<longrightarrow> gameState s' = GAME_OVER)"

text \<open>Some city that was dead in \<open>s\<close> is alive in \<open>s1\<close>.\<close>

definition cityRevived :: "State \<Rightarrow> State \<Rightarrow> bool" where
  "cityRevived s s1 \<longleftrightarrow>
     (\<exists>i. i < length (cities s) \<and> i < length (cities s1) \<and>
          \<not> alive (cities s ! i) \<and> alive (cities s1 ! i))"

text \<open>A lost game: all six cities destroyed, one tower destroyed, ammo partly spent.\<close>

definition ruinedState :: State where
  "ruinedState =
     playingState\<lparr>gameState := GAME_OVER, wave := 2, score := 260,
       cities := map (\<lambda>c. c\<lparr>alive := False\<rparr>) initialCities,
       towers := [\<lparr>px = 0, py = 0, alive = True, ammo = 3, maxAmmo = 20\<rparr>,
                  \<lparr>px = 0, py = 0, alive = False, ammo = 0, maxAmmo = 40\<rparr>,
                  \<lparr>px = 0, py = 0, alive = True, ammo = 0, maxAmmo = 20\<rparr>]\<rparr>"

text \<open>Every pending timer callback writes \<open>VICTORY\<close> or \<open>WAVE_COMPLETE\<close>.\<close>

definition deferredOnly :: "Timeout list \<Rightarrow> bool" where
  "deferredOnly ts = list_all (\<lambda>t. sets t = VICTORY \<or> sets t = WAVE_COMPLETE) ts"

text \<open>Every tower's ammo lies between zero and its capacity.\<close>

definition ammoInRange :: "Tower list \<Rightarrow> bool" where
  "ammoInRange ts = list_all (\<lambda>t. 0 \<le> ammo t \<and> ammo t \<le> maxAmmo t) ts"

text \<open>One city is left and a projectile aimed at it is one step above the ground.\<close>

definition lastCityState :: State where
  "lastCityState =
     playingState\<lparr>lastTime := 1000, spawnTimer := 1000,
       cities := (map (\<lambda>c. c\<lparr>alive := False\<rparr>) initialCities)
                   [0 := \<lparr>px = 0, py = 0, alive = True\<rparr>],
       enemies := [\<lparr>px = 160, py = 554, vx = 0, vy = 6 / 5, dead = False,
                    targetIndex = 0, speed = 6 / 5, trail = []\<rparr>]\<rparr>"

text \<open>An invariant of the reachable states.\<close>

definition stateInv :: "State \<Rightarrow> bool" where
  "stateInv s \<longleftrightarrow>
     length (cities s) = 6 \<and> length (towers s) = 3 \<and>
     deferredOnly (timeouts s) \<and> ammoInRange (towers s) \<and>
     (gameState s = GAME_OVER \<longrightarrow> allCitiesDead (cities s))"

text \<open>
  The events that run \<open>nextWave\<close> (next-wave and endless buttons) or \<open>initGame\<close>
  (start and restart buttons).
\<close>

fun isReset :: "Event \<Rightarrow> bool" where
  "isReset (Click b now) =
     (b = NextWaveButton \<or> b = EndlessButton \<or> b = StartButton \<or> b = RestartButton)"
| "isReset ev = False"

text \<open>From \<open>ts\<close> to \<open>ts'\<close> no tower gained ammo, and no ammo is negative.\<close>

definition ammoSpent :: "Tower list \<Rightarrow> Tower list \<Rightarrow> bool" where
  "ammoSpent ts ts' \<longleftrightarrow>
     length ts' = length ts \<and>
     (\<forall>i < length ts. 0 \<le> ammo (ts' ! i) \<and> ammo (ts' ! i) \<le> ammo (ts ! i))"

text \<open>Some tower has more ammo in \<open>ts'\<close> than in \<open>ts\<close>.\<close>

definition ammoRaised :: "Tower list \<Rightarrow> Tower list \<Rightarrow> bool" where
  "ammoRaised ts ts' \<longleftrightarrow>
     (\<exists>i. i < length ts \<and> i < length ts' \<and> ammo (ts ! i) < ammo (ts' ! i))"

text \<open>
  The transitions that the specification lists, as pairs of game states: start,
  pause and resume, defeat, wave complete, victory, next wave, endless continue, and
  restart (which the code runs from \<open>GAME_OVER\<close> and \<open>VICTORY\<close> straight into a reset
  game that is \<open>PLAYING\<close>).
\<close>

definition specTransitions :: "(GameState \<times> GameState) list" where
  "specTransitions =
     [(MENU, PLAYING),
      (PLAYING, PAUSED), (PAUSED, PLAYING),
      (PLAYING, GAME_OVER),
      (PLAYING, WAVE_COMPLETE),
      (PLAYING, VICTORY),
      (WAVE_COMPLETE, PLAYING),
      (VICTORY, PLAYING),
      (GAME_OVER, PLAYING)]"

text \<open>
  The game state in which the JSX renders a button: every overlay in its own state,
  the pause button of the HUD always. An event is in place when it is not a click, or
  a click on a button in a state that renders it.
\<close>

fun rendered :: "Button \<Rightarrow> GameState \<Rightarrow> bool" where
  "rendered StartButton g = (g = MENU)"
| "rendered PauseButton g = True"
| "rendered ResumeButton g = (g = PAUSED)"
| "rendered QuitButton g = (g = PAUSED)"
| "rendered NextWaveButton g = (g = WAVE_COMPLETE)"
| "rendered RestartButton g = (g = GAME_OVER \<or> g = VICTORY)"
| "rendered EndlessButton g = (g = VICTORY)"

fun inPlace :: "Event \<Rightarrow> GameState \<Rightarrow> bool" where
  "inPlace (Click b now) g = rendered b g"
| "inPlace ev g = True"

text \<open>
  The actions whose code tests the game state, and the states in which that test
  turns them away: a tap outside \<open>PLAYING\<close>, the pause button outside \<open>PLAYING\<close> and
  \<open>PAUSED\<close>.
\<close>

fun turnedAway :: "Event \<Rightarrow> GameState \<Rightarrow> bool" where
  "turnedAway (Tap canvas x y) g = (g \<noteq> PLAYING)"
| "turnedAway (Click PauseButton now) g = (g \<noteq> PLAYING \<and> g \<noteq> PAUSED)"
| "turnedAway ev g = False"

fun isTimeout :: "Event \<Rightarrow> bool" where
  "isTimeout (TimeoutFires now k) = True"
| "isTimeout ev = False"

text \<open>The game paused right after its start.\<close>

definition pausedState :: State where
  "pausedState = click PauseButton 3 playingState"

text \<open>
  The wave-bonus scenario: wave 3, score 600, no projectile and no blast, two towers
  alive with 10 and 0 ammo, the third destroyed; the last spawn was 800 ms ago.
\<close>

definition bonusState :: State where
  "bonusState =
     \<lparr>gameState = PLAYING, score = 600, wave = 3,
      towers = [\<lparr>px = 0, py = 0, alive = True, ammo = 10, maxAmmo = 20\<rparr>,
                \<lparr>px = 0, py = 0, alive = True, ammo = 0, maxAmmo = 40\<rparr>,
                \<lparr>px = 0, py = 0, alive = False, ammo = 0, maxAmmo = 20\<rparr>],
      cities = initialCities,
      enemies = [], interceptors = [], explosions = [], floatingTexts = [],
      lastTime = 10784, spawnTimer = 10000, isWaveClearing = True, isEndlessMode = False,
      waveBonus = 0, timeouts = []\<rparr>"

text \<open>Entity \<open>e'\<close> is entity \<open>e\<close> moved by its velocity, the velocity unchanged.\<close>

definition advanced :: "'a Entity_scheme \<Rightarrow> 'a Entity_scheme \<Rightarrow> bool" where
  "advanced e e' \<longleftrightarrow>
     px e' = px e + vx e \<and> py e' = py e + vy e \<and> vx e' = vx e \<and> vy e' = vy e"

text \<open>The game after one tap at (400, 100): an interceptor leaves the middle tower.\<close>

definition flightState :: State where
  "flightState =
     playingState\<lparr>
       interceptors := [\<lparr>px = 400, py = 540, vx = 0, vy = - 15, dead = False,
          target = \<lparr>px = 400, py = 100\<rparr>, ispeed = 15, itrail = [], originTowerIndex = 1\<rparr>],
       towers := [\<lparr>px = 0, py = 0, alive = True, ammo = 20, maxAmmo = 20\<rparr>,
                  \<lparr>px = 0, py = 0, alive = True, ammo = 39, maxAmmo = 40\<rparr>,
                  \<lparr>px = 0, py = 0, alive = True, ammo = 20, maxAmmo = 20\<rparr>]\<rparr>"

definition positions :: "'a Entity_scheme list \<Rightarrow> (real \<times> real) list" where
  "positions es = map (\<lambda>e. (px e, py e)) es"

text \<open>
  The chain-kill scenario: an interceptor one step from its target (400, 300), and
  two projectiles falling side by side at x = 458 and x = 462. Seventeen frames follow,
  16 ms apart, without any further input.
\<close>

definition chainState :: State where
  "chainState =
     playingState\<lparr>
       interceptors := [\<lparr>px = 400, py = 320, vx = 0, vy = - 15, dead = False,
          target = \<lparr>px = 400, py = 300\<rparr>, ispeed = 15, itrail = [], originTowerIndex = 1\<rparr>],
       enemies := [\<lparr>px = 458, py = 282, vx = 0, vy = 6 / 5, dead = False,
                    targetIndex = 3, speed = 6 / 5, trail = []\<rparr>,
                   \<lparr>px = 462, py = 282, vx = 0, vy = 6 / 5, dead = False,
                    targetIndex = 3, speed = 6 / 5, trail = []\<rparr>],
       towers := [\<lparr>px = 0, py = 0, alive = True, ammo = 20, maxAmmo = 20\<rparr>,
                  \<lparr>px = 0, py = 0, alive = True, ammo = 39, maxAmmo = 40\<rparr>,
                  \<lparr>px = 0, py = 0, alive = True, ammo = 20, maxAmmo = 20\<rparr>]\<rparr>"

definition chainTicks :: "Event list" where
  "chainTicks = [Tick 16 (Some canvas0) 0 0, Tick 32 (Some canvas0) 0 0, Tick 48 (Some canvas0) 0 0, Tick 64 (Some canvas0) 0 0, Tick 80 (Some canvas0) 0 0, Tick 96 (Some canvas0) 0 0, Tick 112 (Some canvas0) 0 0, Tick 128 (Some canvas0) 0 0, Tick 144 (Some canvas0) 0 0, Tick 160 (Some canvas0) 0 0, Tick 176 (Some canvas0) 0 0, Tick 192 (Some canvas0) 0 0, Tick 208 (Some canvas0) 0 0, Tick 224 (Some canvas0) 0 0, Tick 240 (Some canvas0) 0 0, Tick 256 (Some canvas0) 0 0, Tick 272 (Some canvas0) 0 0]"

text \<open>The second projectile and the two blasts as they are when the chain reaches it.\<close>

definition chainEnemy :: Enemy where
  "chainEnemy = \<lparr>px = 462, py = 1506 / 5, vx = 0, vy = 6 / 5, dead = False,
                  targetIndex = 3, speed = 6 / 5, trail = []\<rparr>"

definition chainBlasts :: "Explosion list" where
  "chainBlasts =
     [\<lparr>px = 400, py = 300, radius = 60, maxRadius = 60, growthRate = 4, life = 9 / 10\<rparr>,
      \<lparr>px = 458, py = 300, radius = 8, maxRadius = 60, growthRate = 4, life = 1\<rparr>]"

text \<open>Centre and radius of every blast.\<close>

definition blastDiscs :: "Explosion list \<Rightarrow> (real \<times> real \<times> real) list" where
  "blastDiscs es = map (\<lambda>b. (px b, py b, radius b)) es"

text \<open>The projectile after the first statements of its loop body: moved, trail extended.\<close>

definition movedEnemy :: "Enemy \<Rightarrow> Enemy" where
  "movedEnemy e =
     (let e1 = e\<lparr>px := px e + vx e, py := py e + vy e\<rparr>;
          e2 = e1\<lparr>trail := trail e1 @ [\<lparr>px = px e1, py = py e1\<rparr>]\<rparr>
      in if length (trail e2) > 15 then e2\<lparr>trail := tl (trail e2)\<rparr> else e2)"

text \<open>
  The array lengths of the game and the range of the target indices: what the reads
  \<open>citiesRef.current[cityIdx]\<close> and \<open>towersRef.current[towerIdx]\<close> rely on.
\<close>

definition targetsInRange :: "State \<Rightarrow> bool" where
  "targetsInRange s \<longleftrightarrow>
     length (cities s) = 6 \<and> length (towers s) = 3 \<and>
     list_all (\<lambda>e. 0 \<le> targetIndex e \<and> targetIndex e < 9) (enemies s)"

text \<open>\<open>Math.random()\<close> returns a number in the interval from 0 (inclusive) to 1.\<close>

fun randomInRange :: "Event \<Rightarrow> bool" where
  "randomInRange (Tick time canvas rndTarget rndX) = (0 \<le> rndTarget \<and> rndTarget < 1)"
| "randomInRange ev = True"

text \<open>
  What one step does to all projectiles. A projectile is in a blast of the list \<open>B\<close>
  when, after its move, some blast of \<open>B\<close> has a radius above its distance; it lands
  when, after its move, it is at ground level. \<open>blastAt\<close> is the blast that
  \<open>spawnExplosion\<close> creates. \<open>blastsMet\<close> is the list of blasts the projectiles of a
  step are tested against: the blasts of the state and those of the interceptors that
  arrive in this step, all after the growth step.
\<close>

definition inBlast :: "Explosion list \<Rightarrow> Enemy \<Rightarrow> bool" where
  "inBlast B e = list_ex (\<lambda>b. distance (movedEnemy e) b < radius b) B"

definition lands :: "real \<Rightarrow> Enemy \<Rightarrow> bool" where
  "lands groundY e = (py (movedEnemy e) \<ge> groundY - 5)"

definition blastAt :: "real \<Rightarrow> real \<Rightarrow> Explosion" where
  "blastAt x y = \<lparr>px = x, py = y, radius = 0, maxRadius = 60, growthRate = 4, life = 1\<rparr>"

definition movedInterceptor :: "Interceptor \<Rightarrow> Interceptor" where
  "movedInterceptor p =
     (let p1 = p\<lparr>px := px p + vx p, py := py p + vy p\<rparr>;
          p2 = p1\<lparr>itrail := itrail p1 @ [\<lparr>px = px p1, py = py p1\<rparr>]\<rparr>
      in if length (itrail p2) > 10 then p2\<lparr>itrail := tl (itrail p2)\<rparr> else p2)"

definition detonations :: "Interceptor list \<Rightarrow> Explosion list" where
  "detonations ps =
     map (\<lambda>p. blastAt (px (target p)) (py (target p)))
       (filter (\<lambda>p. distance (movedInterceptor p) (target p) < ispeed p) ps)"

definition blastsMet :: "State \<Rightarrow> Explosion list" where
  "blastsMet s = map stepExplosion (explosions s @ detonations (interceptors s))"

text \<open>Two projectiles inside one growing blast, a third one far away.\<close>

definition twinState :: State where
  "twinState =
     playingState\<lparr>lastTime := 1000, spawnTimer := 1000,
       explosions := [\<lparr>px = 400, py = 300, radius = 56, maxRadius = 60, growthRate = 4, life = 1\<rparr>],
       enemies := [\<lparr>px = 410, py = 290, vx = 0, vy = 6 / 5, dead = False,
                    targetIndex = 7, speed = 6 / 5, trail = []\<rparr>,
                   \<lparr>px = 390, py = 290, vx = 0, vy = 6 / 5, dead = False,
                    targetIndex = 7, speed = 6 / 5, trail = []\<rparr>,
                   \<lparr>px = 700, py = 290, vx = 0, vy = 6 / 5, dead = False,
                    targetIndex = 8, speed = 6 / 5, trail = []\<rparr>]\<rparr>"

section \<open>Properties\<close>

subsection \<open>Auxiliary facts\<close>

lemma sqrt_one_plus_quotient:
  assumes "a \<noteq> (0::real)"
  shows "sqrt (1 + (b / a)\<^sup>2) = sqrt (a\<^sup>2 + b\<^sup>2) / \<bar>a\<bar>"
proof -
  have "1 + (b / a)\<^sup>2 = (a\<^sup>2 + b\<^sup>2) / a\<^sup>2"
    using assms by (simp add: field_simps power2_eq_square)
  then show ?thesis by (simp add: real_sqrt_divide)
qed

lemma hyp_pos: "a \<noteq> (0::real) \<Longrightarrow> 0 < sqrt (a\<^sup>2 + b\<^sup>2)"
  by (simp add: sum_power2_gt_zero_iff)

lemma cos_arctan_quotient:
  assumes "a \<noteq> 0"
  shows "cos (arctan (b / a)) * sqrt (a\<^sup>2 + b\<^sup>2) = \<bar>a\<bar>"
  using assms hyp_pos [OF assms, of b]
  by (simp add: cos_arctan sqrt_one_plus_quotient)

lemma sin_arctan_quotient:
  assumes "a \<noteq> 0"
  shows "sin (arctan (b / a)) * sqrt (a\<^sup>2 + b\<^sup>2) = b * \<bar>a\<bar> / a"
  using assms hyp_pos [OF assms, of b]
  by (simp add: sin_arctan sqrt_one_plus_quotient)

lemma cos_atan2: "cos (atan2 b a) * sqrt (a\<^sup>2 + b\<^sup>2) = a"
  using cos_arctan_quotient [of a b]
  by (auto simp: atan2_def)

lemma sin_atan2: "sin (atan2 b a) * sqrt (a\<^sup>2 + b\<^sup>2) = b"
  using sin_arctan_quotient [of a b]
  by (auto simp: atan2_def)

subsection \<open>C10: the logic freeze of every state other than Playing\<close>

text \<open>
  Claim C10. A frame tick in any game state other than \<open>PLAYING\<close> (Menu, Paused,
  WaveComplete, GameOver, Victory) leaves the simulation state as it is: the tick
  returns the state it was given with nothing but the frame-clock reference
  \<open>lastTime\<close> rewritten, so nothing spawns, moves or is culled, and score, wave, towers
  and cities keep their values.
\<close>

theorem update_frozen_unless_playing:
  "gameState s \<noteq> PLAYING \<Longrightarrow>
     update time canvas rndTarget rndX s = Some (s\<lparr>lastTime := time\<rparr>)"
  by (simp add: update_def Let_def split: option.split)

theorem update_frozen_unless_playing_witness:
  "gameState initialState \<noteq> PLAYING \<and>
   update 16 (Some \<lparr>width = 800, height = 600, rectLeft = 0, rectTop = 0\<rparr>) 0 0 initialState
     = Some (initialState\<lparr>lastTime := 16\<rparr>)"
proof -
  have h: "gameState initialState \<noteq> PLAYING" by (simp add: initialState_def)
  show ?thesis using h update_frozen_unless_playing [OF h] by simp
qed

subsection \<open>C5: a tap fires the nearest tower that can fire\<close>

lemma nearestLoop_Cons:
  "nearestLoop ts x y ((t, idx) # rest) best =
     (if (case best of None \<Rightarrow> True | Some (n, minDist) \<Rightarrow> tapDist x y t < minDist) then
        (if idx < length ts then
           (if alive (ts ! idx) \<and> 0 < ammo (ts ! idx)
            then nearestLoop ts x y rest (Some (idx, tapDist x y t))
            else nearestLoop ts x y rest best)
         else None)
      else nearestLoop ts x y rest best)"
  unfolding tapDist_def by (simp add: Let_def)

lemma nearestLoop_spec:
  assumes "\<forall>(t, i) \<in> set tps. i < length ts"
  shows "\<exists>r. nearestLoop ts x y tps best = Some r \<and>
     (case r of
        None \<Rightarrow> best = None \<and> (\<forall>(t, i) \<in> set tps. \<not> qualifies ts i)
      | Some (n, d) \<Rightarrow>
          (best = Some (n, d) \<or>
             (\<exists>t. (t, n) \<in> set tps \<and> qualifies ts n \<and> d = tapDist x y t)) \<and>
          (\<forall>(t, i) \<in> set tps. qualifies ts i \<longrightarrow> d \<le> tapDist x y t) \<and>
          (\<forall>n0 d0. best = Some (n0, d0) \<longrightarrow> d \<le> d0))"
  using assms
proof (induction tps arbitrary: best)
  case Nil
  then show ?case by (auto split: option.splits)
next
  case (Cons a tps)
  obtain t i where a: "a = (t, i)" by (cases a)
  have i: "i < length ts" using Cons.prems a by auto
  have rest: "\<forall>(t, i) \<in> set tps. i < length ts" using Cons.prems by auto
  let ?d = "tapDist x y t"
  show ?case
  proof (cases "(case best of None \<Rightarrow> True | Some (n, minDist) \<Rightarrow> ?d < minDist) \<and> qualifies ts i")
    case True
    then have eq: "nearestLoop ts x y (a # tps) best = nearestLoop ts x y tps (Some (i, ?d))"
      using a i by (simp only: nearestLoop_Cons) (simp add: qualifies_def)
    from Cons.IH [OF rest, of "Some (i, ?d)"] obtain r where
      r: "nearestLoop ts x y tps (Some (i, ?d)) = Some r"
      and sp: "(case r of
        None \<Rightarrow> Some (i, ?d) = None \<and> (\<forall>(t, i) \<in> set tps. \<not> qualifies ts i)
      | Some (n, d) \<Rightarrow>
          (Some (i, ?d) = Some (n, d) \<or>
             (\<exists>t. (t, n) \<in> set tps \<and> qualifies ts n \<and> d = tapDist x y t)) \<and>
          (\<forall>(t, i) \<in> set tps. qualifies ts i \<longrightarrow> d \<le> tapDist x y t) \<and>
          (\<forall>n0 d0. Some (i, ?d) = Some (n0, d0) \<longrightarrow> d \<le> d0))" by blast
    show ?thesis using True r sp a unfolding eq
      by (auto split: option.splits)
  next
    case False
    then have eq: "nearestLoop ts x y (a # tps) best = nearestLoop ts x y tps best"
      using a i by (simp only: nearestLoop_Cons) (auto simp: qualifies_def split: option.splits)
    from Cons.IH [OF rest, of best] obtain r where
      r: "nearestLoop ts x y tps best = Some r"
      and sp: "(case r of
        None \<Rightarrow> best = None \<and> (\<forall>(t, i) \<in> set tps. \<not> qualifies ts i)
      | Some (n, d) \<Rightarrow>
          (best = Some (n, d) \<or>
             (\<exists>t. (t, n) \<in> set tps \<and> qualifies ts n \<and> d = tapDist x y t)) \<and>
          (\<forall>(t, i) \<in> set tps. qualifies ts i \<longrightarrow> d \<le> tapDist x y t) \<and>
          (\<forall>n0 d0. best = Some (n0, d0) \<longrightarrow> d \<le> d0))" by blast
    show ?thesis using False r sp a unfolding eq
      by (auto split: option.splits)
  qed
qed


lemma set_inputTowerPositions:
  "(t, i) \<in> set (inputTowerPositions cv) \<longleftrightarrow> i < 3 \<and> t = towerPos cv i"
proof -
  have "i < 3 \<longleftrightarrow> i = 0 \<or> i = 1 \<or> i = 2" by arith
  then show ?thesis
    by (auto simp: inputTowerPositions_def towerPos_def Let_def)
qed

lemma launch_speed: "(cos a * 15)\<^sup>2 + (sin a * (15::real))\<^sup>2 = 15\<^sup>2"
proof -
  have "(cos a * 15)\<^sup>2 + (sin a * (15::real))\<^sup>2 = 15\<^sup>2 * ((cos a)\<^sup>2 + (sin a)\<^sup>2)"
    by (simp only: power_mult_distrib distrib_left mult.commute)
  then show ?thesis by (simp only: sin_cos_squared_add2 mult_1_right)
qed

lemma launch_vx: "cos (atan2 (y - py t) (x - px t)) * 15 * tapDist x y t = 15 * (x - px t)"
proof -
  have "tapDist x y t = sqrt ((x - px t)\<^sup>2 + (y - py t)\<^sup>2)"
    by (simp add: tapDist_def power2_commute)
  then show ?thesis using cos_atan2 [of "y - py t" "x - px t"] by simp
qed

lemma launch_vy: "sin (atan2 (y - py t) (x - px t)) * 15 * tapDist x y t = 15 * (y - py t)"
proof -
  have "tapDist x y t = sqrt ((x - px t)\<^sup>2 + (y - py t)\<^sup>2)"
    by (simp add: tapDist_def power2_commute)
  then show ?thesis using sin_atan2 [of "y - py t" "x - px t"] by simp
qed

text \<open>
  Claim C5. A tap processed while the state is \<open>PLAYING\<close> (with the three towers of
  the game): if some tower is alive with ammo left, then a tower \<open>n\<close> that minimises
  the Euclidean distance to the tap among those towers fires. Exactly one interceptor
  is appended; it starts at that tower, has the tapped point as its target, the fixed
  speed 15, a velocity of length 15 that points from the tower to the tap, and only
  tower \<open>n\<close> changes, its ammo going down by one. If no tower qualifies, the state is
  returned as it was: no interceptor, no ammo change.
\<close>

theorem handleInput_fires_nearest_tower:
  assumes playing: "gameState s = PLAYING" and three: "length (towers s) = 3"
  shows "let x = clientX - rectLeft cv; y = clientY - rectTop cv in
    if (\<exists>i. qualifies (towers s) i) then
      (\<exists>n p. qualifies (towers s) n \<and>
         (\<forall>i. qualifies (towers s) i \<longrightarrow> tapDist x y (towerPos cv n) \<le> tapDist x y (towerPos cv i)) \<and>
         handleInput (Some cv) clientX clientY s =
           Some (s\<lparr>interceptors := interceptors s @ [p],
                   towers := (towers s)[n := (towers s ! n)\<lparr>ammo := ammo (towers s ! n) - 1\<rparr>]\<rparr>) \<and>
         px p = px (towerPos cv n) \<and> py p = py (towerPos cv n) \<and>
         target p = \<lparr>px = x, py = y\<rparr> \<and> ispeed p = 15 \<and> \<not> dead p \<and> originTowerIndex p = n \<and>
         (vx p)\<^sup>2 + (vy p)\<^sup>2 = 15\<^sup>2 \<and>
         vx p * tapDist x y (towerPos cv n) = 15 * (x - px (towerPos cv n)) \<and>
         vy p * tapDist x y (towerPos cv n) = 15 * (y - py (towerPos cv n)))
    else handleInput (Some cv) clientX clientY s = Some s"
proof -
  define x where "x = clientX - rectLeft cv"
  define y where "y = clientY - rectTop cv"
  have idx: "\<forall>(t, i) \<in> set (inputTowerPositions cv). i < length (towers s)"
    using three by (auto simp: set_inputTowerPositions)
  from nearestLoop_spec [OF idx, of x y None] obtain r where
    r: "nearestLoop (towers s) x y (inputTowerPositions cv) None = Some r"
    and sp: "case r of
        None \<Rightarrow> (\<forall>(t, i) \<in> set (inputTowerPositions cv). \<not> qualifies (towers s) i)
      | Some (n, d) \<Rightarrow>
          (\<exists>t. (t, n) \<in> set (inputTowerPositions cv) \<and> qualifies (towers s) n \<and> d = tapDist x y t) \<and>
          (\<forall>(t, i) \<in> set (inputTowerPositions cv). qualifies (towers s) i \<longrightarrow> d \<le> tapDist x y t)"
    by (auto split: option.splits)
  have q3: "qualifies (towers s) i \<Longrightarrow> i < 3" for i
    using three by (simp add: qualifies_def)
  show ?thesis
  proof (cases r)
    case None
    have none: "\<not> qualifies (towers s) i" for i
    proof
      assume q: "qualifies (towers s) i"
      then have "(towerPos cv i, i) \<in> set (inputTowerPositions cv)"
        using q3 by (simp add: set_inputTowerPositions)
      then show False using sp None q by auto
    qed
    have "handleInput (Some cv) clientX clientY s = Some s"
      using playing r None by (simp add: handleInput_def x_def y_def)
    then show ?thesis using none by (simp add: Let_def)
  next
    case (Some nd)
    obtain n d where nd: "nd = (n, d)" by (cases nd)
    have qn: "qualifies (towers s) n" and d: "d = tapDist x y (towerPos cv n)"
      using sp Some nd by (auto simp: set_inputTowerPositions)
    have least: "d \<le> tapDist x y (towerPos cv i)" if q: "qualifies (towers s) i" for i
    proof -
      have "(towerPos cv i, i) \<in> set (inputTowerPositions cv)"
        using q q3 by (simp add: set_inputTowerPositions)
      then show ?thesis using sp Some nd q by auto
    qed
    let ?t = "towerPos cv n"
    let ?p = "\<lparr>px = px ?t, py = py ?t,
               vx = cos (atan2 (y - py ?t) (x - px ?t)) * 15,
               vy = sin (atan2 (y - py ?t) (x - px ?t)) * 15,
               dead = False, target = \<lparr>px = x, py = y\<rparr>,
               ispeed = 15, itrail = [], originTowerIndex = n\<rparr>"
    have res: "handleInput (Some cv) clientX clientY s =
           Some (s\<lparr>interceptors := interceptors s @ [?p],
                   towers := (towers s)[n := (towers s ! n)\<lparr>ammo := ammo (towers s ! n) - 1\<rparr>]\<rparr>)"
      using playing r Some nd
      by (simp add: handleInput_def x_def y_def Let_def towerPos_def)
    have "\<exists>i. qualifies (towers s) i" using qn by blast
    moreover have "\<exists>n p. qualifies (towers s) n \<and>
         (\<forall>i. qualifies (towers s) i \<longrightarrow> tapDist x y (towerPos cv n) \<le> tapDist x y (towerPos cv i)) \<and>
         handleInput (Some cv) clientX clientY s =
           Some (s\<lparr>interceptors := interceptors s @ [p],
                   towers := (towers s)[n := (towers s ! n)\<lparr>ammo := ammo (towers s ! n) - 1\<rparr>]\<rparr>) \<and>
         px p = px (towerPos cv n) \<and> py p = py (towerPos cv n) \<and>
         target p = \<lparr>px = x, py = y\<rparr> \<and> ispeed p = 15 \<and> \<not> dead p \<and> originTowerIndex p = n \<and>
         (vx p)\<^sup>2 + (vy p)\<^sup>2 = 15\<^sup>2 \<and>
         vx p * tapDist x y (towerPos cv n) = 15 * (x - px (towerPos cv n)) \<and>
         vy p * tapDist x y (towerPos cv n) = 15 * (y - py (towerPos cv n))"
      apply (rule exI [of _ n], rule exI [of _ ?p])
      using qn least d res launch_speed launch_vx launch_vy
      by simp
    ultimately show ?thesis by (simp add: Let_def x_def y_def)
  qed
qed


theorem handleInput_fires_nearest_tower_witness:
  "gameState playingState = PLAYING \<and> length (towers playingState) = 3 \<and>
   qualifies (towers playingState) 1 \<and>
   (\<exists>n p. qualifies (towers playingState) n \<and>
      handleInput (Some canvas0) 400 100 playingState =
        Some (playingState\<lparr>interceptors := interceptors playingState @ [p],
                towers := (towers playingState)[n :=
                  (towers playingState ! n)\<lparr>ammo := ammo (towers playingState ! n) - 1\<rparr>]\<rparr>) \<and>
      target p = \<lparr>px = 400, py = 100\<rparr> \<and> ispeed p = 15)"
proof -
  have h1: "gameState playingState = PLAYING"
    by (simp add: playingState_def initGame_def)
  have h2: "length (towers playingState) = 3"
    by (simp add: playingState_def initGame_def initialTowers_def)
  have q: "qualifies (towers playingState) 1"
    by (simp add: playingState_def initGame_def initialTowers_def qualifies_def)
  then have ex: "\<exists>i. qualifies (towers playingState) i" by blast
  have r: "rectLeft canvas0 = 0" "rectTop canvas0 = 0" by (simp_all add: canvas0_def)
  show ?thesis
    using h1 h2 q ex handleInput_fires_nearest_tower [OF h1 h2, of 400 canvas0 100]
    unfolding Let_def r by (simp only: if_True diff_zero) blast
qed

subsection \<open>What each phase of the step writes\<close>

lemma spawnExplosion_fields [simp]:
  "gameState (spawnExplosion x y s) = gameState s"
  "score (spawnExplosion x y s) = score s"
  "wave (spawnExplosion x y s) = wave s"
  "towers (spawnExplosion x y s) = towers s"
  "cities (spawnExplosion x y s) = cities s"
  "enemies (spawnExplosion x y s) = enemies s"
  "interceptors (spawnExplosion x y s) = interceptors s"
  "floatingTexts (spawnExplosion x y s) = floatingTexts s"
  "lastTime (spawnExplosion x y s) = lastTime s"
  "spawnTimer (spawnExplosion x y s) = spawnTimer s"
  "isWaveClearing (spawnExplosion x y s) = isWaveClearing s"
  "isEndlessMode (spawnExplosion x y s) = isEndlessMode s"
  "waveBonus (spawnExplosion x y s) = waveBonus s"
  "timeouts (spawnExplosion x y s) = timeouts s"
  by (simp_all add: spawnExplosion_def)

lemma addScore_fields [simp]:
  "gameState (addScore n x y s) = gameState s"
  "score (addScore n x y s) = score s + n"
  "wave (addScore n x y s) = wave s"
  "towers (addScore n x y s) = towers s"
  "cities (addScore n x y s) = cities s"
  "enemies (addScore n x y s) = enemies s"
  "interceptors (addScore n x y s) = interceptors s"
  "explosions (addScore n x y s) = explosions s"
  "lastTime (addScore n x y s) = lastTime s"
  "spawnTimer (addScore n x y s) = spawnTimer s"
  "isWaveClearing (addScore n x y s) = isWaveClearing s"
  "isEndlessMode (addScore n x y s) = isEndlessMode s"
  "waveBonus (addScore n x y s) = waveBonus s"
  "timeouts (addScore n x y s) = timeouts s"
  by (simp_all add: addScore_def)

lemma spawnEnemies_fields:
  assumes "spawnEnemies time cv r1 r2 s = Some s1"
  shows "gameState s1 = gameState s" "score s1 = score s" "wave s1 = wave s"
    "towers s1 = towers s" "cities s1 = cities s" "interceptors s1 = interceptors s"
    "explosions s1 = explosions s" "floatingTexts s1 = floatingTexts s"
    "lastTime s1 = lastTime s" "isWaveClearing s1 = isWaveClearing s"
    "isEndlessMode s1 = isEndlessMode s" "waveBonus s1 = waveBonus s"
    "timeouts s1 = timeouts s"
  using assms by (auto simp: spawnEnemies_def Let_def split: if_splits)

lemma checkWaveClear_fields [simp]:
  "gameState (checkWaveClear time cv s) = gameState s"
  "wave (checkWaveClear time cv s) = wave s"
  "towers (checkWaveClear time cv s) = towers s"
  "cities (checkWaveClear time cv s) = cities s"
  "enemies (checkWaveClear time cv s) = enemies s"
  "interceptors (checkWaveClear time cv s) = interceptors s"
  "explosions (checkWaveClear time cv s) = explosions s"
  "lastTime (checkWaveClear time cv s) = lastTime s"
  "spawnTimer (checkWaveClear time cv s) = spawnTimer s"
  "isEndlessMode (checkWaveClear time cv s) = isEndlessMode s"
  by (simp_all add: checkWaveClear_def Let_def)

lemma stepInterceptor_fields:
  assumes "stepInterceptor p s = (p', s')"
  shows "gameState s' = gameState s" "score s' = score s" "wave s' = wave s"
    "towers s' = towers s" "cities s' = cities s" "enemies s' = enemies s"
    "interceptors s' = interceptors s" "floatingTexts s' = floatingTexts s"
    "lastTime s' = lastTime s" "spawnTimer s' = spawnTimer s"
    "isWaveClearing s' = isWaveClearing s" "isEndlessMode s' = isEndlessMode s"
    "waveBonus s' = waveBonus s" "timeouts s' = timeouts s"
  using assms by (auto simp: stepInterceptor_def Let_def split: if_splits)

lemma stepInterceptors_fields:
  assumes "stepInterceptors ps s = (ps', s')"
  shows "gameState s' = gameState s \<and> score s' = score s \<and> wave s' = wave s \<and>
    towers s' = towers s \<and> cities s' = cities s \<and> enemies s' = enemies s \<and>
    interceptors s' = interceptors s \<and> floatingTexts s' = floatingTexts s \<and>
    lastTime s' = lastTime s \<and> spawnTimer s' = spawnTimer s \<and>
    isWaveClearing s' = isWaveClearing s \<and> isEndlessMode s' = isEndlessMode s \<and>
    waveBonus s' = waveBonus s \<and> timeouts s' = timeouts s"
  using assms
proof (induction ps arbitrary: s ps' s')
  case Nil
  then show ?case by simp
next
  case (Cons p ps)
  obtain p1 s1 where a: "stepInterceptor p s = (p1, s1)" by (cases "stepInterceptor p s")
  obtain ps2 s2 where b: "stepInterceptors ps s1 = (ps2, s2)" by (cases "stepInterceptors ps s1")
  have "s' = s2" using Cons.prems a b by simp
  then show ?case using Cons.IH [OF b] stepInterceptor_fields [OF a] by simp
qed

lemma cleanup_fields [simp]:
  "gameState (cleanup s) = gameState s"
  "score (cleanup s) = score s"
  "wave (cleanup s) = wave s"
  "towers (cleanup s) = towers s"
  "cities (cleanup s) = cities s"
  "lastTime (cleanup s) = lastTime s"
  "spawnTimer (cleanup s) = spawnTimer s"
  "isWaveClearing (cleanup s) = isWaveClearing s"
  "isEndlessMode (cleanup s) = isEndlessMode s"
  "waveBonus (cleanup s) = waveBonus s"
  "timeouts (cleanup s) = timeouts s"
  by (simp_all add: cleanup_def)

text \<open>What one enemy can do to the state.\<close>

lemma stepEnemy_cases:
  assumes "stepEnemy g e s = Some (e', s')"
  shows "wave s' = wave s \<and> enemies s' = enemies s \<and> interceptors s' = interceptors s \<and>
    lastTime s' = lastTime s \<and> spawnTimer s' = spawnTimer s \<and>
    isWaveClearing s' = isWaveClearing s \<and> isEndlessMode s' = isEndlessMode s \<and>
    waveBonus s' = waveBonus s \<and> timeouts s' = timeouts s \<and>
    (score s' = score s \<or> score s' = score s + 20) \<and>
    ((cities s' = cities s \<and> gameState s' = gameState s) \<or>
     (\<exists>i < length (cities s). alive (cities s ! i) \<and>
        cities s' = (cities s)[i := (cities s ! i)\<lparr>alive := False\<rparr>] \<and>
        gameState s' = (if list_all (\<lambda>c. \<not> alive c) (cities s') then GAME_OVER else gameState s))) \<and>
    (towers s' = towers s \<or>
     (\<exists>i < length (towers s). alive (towers s ! i) \<and>
        towers s' = (towers s)[i := (towers s ! i)\<lparr>alive := False, ammo := 0\<rparr>]))"
  using assms
  by (auto simp: stepEnemy_def Let_def split: if_splits option.splits)


lemma allCitiesDead_nth:
  "allCitiesDead cs \<longleftrightarrow> (\<forall>i < length cs. \<not> alive (cs ! i))"
  by (simp add: allCitiesDead_def list_all_length)

lemma structuresDecay_refl: "structuresDecay s s"
  by (simp add: structuresDecay_def)

lemma structuresDecay_allDead:
  "structuresDecay s s' \<Longrightarrow> allCitiesDead (cities s) \<Longrightarrow> allCitiesDead (cities s')"
  unfolding structuresDecay_def allCitiesDead_nth
  by (metis City.select_convs(1) City.surjective City.update_convs(1))

lemma structuresDecay_trans:
  assumes a: "structuresDecay s s1" and b: "structuresDecay s1 s2"
  shows "structuresDecay s s2"
proof -
  have len: "length (cities s1) = length (cities s)" "length (towers s1) = length (towers s)"
    "length (cities s2) = length (cities s1)" "length (towers s2) = length (towers s1)"
    using a b by (simp_all add: structuresDecay_def)
  have c: "cities s2 ! i = cities s ! i \<or>
        (alive (cities s ! i) \<and> cities s2 ! i = (cities s ! i)\<lparr>alive := False\<rparr>)"
    if i: "i < length (cities s)" for i
  proof -
    have 1: "cities s1 ! i = cities s ! i \<or>
        (alive (cities s ! i) \<and> cities s1 ! i = (cities s ! i)\<lparr>alive := False\<rparr>)"
      using a i by (simp add: structuresDecay_def)
    have 2: "cities s2 ! i = cities s1 ! i \<or>
        (alive (cities s1 ! i) \<and> cities s2 ! i = (cities s1 ! i)\<lparr>alive := False\<rparr>)"
      using b i len by (simp add: structuresDecay_def)
    show ?thesis using 1 2 by auto
  qed
  have t: "towers s2 ! i = towers s ! i \<or>
        (alive (towers s ! i) \<and> towers s2 ! i = (towers s ! i)\<lparr>alive := False, ammo := 0\<rparr>)"
    if i: "i < length (towers s)" for i
  proof -
    have 1: "towers s1 ! i = towers s ! i \<or>
        (alive (towers s ! i) \<and> towers s1 ! i = (towers s ! i)\<lparr>alive := False, ammo := 0\<rparr>)"
      using a i by (simp add: structuresDecay_def)
    have 2: "towers s2 ! i = towers s1 ! i \<or>
        (alive (towers s1 ! i) \<and> towers s2 ! i = (towers s1 ! i)\<lparr>alive := False, ammo := 0\<rparr>)"
      using b i len by (simp add: structuresDecay_def)
    show ?thesis using 1 2 by auto
  qed
  have g1: "gameState s2 = gameState s \<or> gameState s2 = GAME_OVER"
    using a b unfolding structuresDecay_def by metis
  have mono: "allCitiesDead (cities s1) \<Longrightarrow> allCitiesDead (cities s2)"
    using structuresDecay_allDead [OF b] .
  have g2: "gameState s2 = GAME_OVER \<longrightarrow> gameState s = GAME_OVER \<or> allCitiesDead (cities s2)"
    using a b mono unfolding structuresDecay_def by metis
  have g3: "allCitiesDead (cities s2) \<and> \<not> allCitiesDead (cities s) \<longrightarrow> gameState s2 = GAME_OVER"
    using a b unfolding structuresDecay_def by metis
  show ?thesis
    unfolding structuresDecay_def using len c t g1 g2 g3 by simp
qed

lemma stepEnemy_structuresDecay:
  assumes "stepEnemy g e s = Some (e', s')"
  shows "structuresDecay s s'"
proof -
  note c = stepEnemy_cases [OF assms]
  have cit: "(cities s' = cities s \<and> gameState s' = gameState s) \<or>
     (\<exists>i < length (cities s). alive (cities s ! i) \<and>
        cities s' = (cities s)[i := (cities s ! i)\<lparr>alive := False\<rparr>] \<and>
        gameState s' = (if list_all (\<lambda>c. \<not> alive c) (cities s') then GAME_OVER else gameState s))"
    using c by blast
  have tow: "towers s' = towers s \<or>
     (\<exists>i < length (towers s). alive (towers s ! i) \<and>
        towers s' = (towers s)[i := (towers s ! i)\<lparr>alive := False, ammo := 0\<rparr>])"
    using c by blast
  have t: "length (towers s') = length (towers s) \<and> (\<forall>i < length (towers s).
        towers s' ! i = towers s ! i \<or>
        (alive (towers s ! i) \<and> towers s' ! i = (towers s ! i)\<lparr>alive := False, ammo := 0\<rparr>))"
    using tow by (auto simp: nth_list_update split: if_splits)
  have ci: "length (cities s') = length (cities s) \<and> (\<forall>i < length (cities s).
        cities s' ! i = cities s ! i \<or>
        (alive (cities s ! i) \<and> cities s' ! i = (cities s ! i)\<lparr>alive := False\<rparr>))"
    using cit by (auto simp: nth_list_update split: if_splits)
  have g: "(gameState s' = gameState s \<or> gameState s' = GAME_OVER) \<and>
     (gameState s' = GAME_OVER \<longrightarrow> gameState s = GAME_OVER \<or> allCitiesDead (cities s')) \<and>
     (allCitiesDead (cities s') \<and> \<not> allCitiesDead (cities s) \<longrightarrow> gameState s' = GAME_OVER)"
    using cit by (auto simp: allCitiesDead_def)
  show ?thesis unfolding structuresDecay_def using t ci g by simp
qed

lemma stepEnemies_structuresDecay:
  "stepEnemies g es s = Some (es', s') \<Longrightarrow> structuresDecay s s'"
proof (induction es arbitrary: s es' s')
  case Nil
  then show ?case by (simp add: structuresDecay_refl)
next
  case (Cons e es)
  from Cons.prems obtain e1 s1 es2 where
    a: "stepEnemy g e s = Some (e1, s1)" and b: "stepEnemies g es s1 = Some (es2, s')"
    by (auto split: option.splits)
  show ?case
    using structuresDecay_trans [OF stepEnemy_structuresDecay [OF a] Cons.IH [OF b]] .
qed

lemma stepEnemies_fields:
  "stepEnemies g es s = Some (es', s') \<Longrightarrow>
     wave s' = wave s \<and> enemies s' = enemies s \<and> interceptors s' = interceptors s \<and>
     lastTime s' = lastTime s \<and> spawnTimer s' = spawnTimer s \<and>
     isWaveClearing s' = isWaveClearing s \<and> isEndlessMode s' = isEndlessMode s \<and>
     waveBonus s' = waveBonus s \<and> timeouts s' = timeouts s \<and> score s \<le> score s'"
proof (induction es arbitrary: s es' s')
  case Nil
  then show ?case by simp
next
  case (Cons e es)
  from Cons.prems obtain e1 s1 es2 where
    a: "stepEnemy g e s = Some (e1, s1)" and b: "stepEnemies g es s1 = Some (es2, s')"
    by (auto split: option.splits)
  show ?case using stepEnemy_cases [OF a] Cons.IH [OF b] by auto
qed

lemma update_playing_decomp:
  assumes "update time (Some cv) r1 r2 s = Some s'" and "gameState s = PLAYING"
  obtains s1 s2 ps s3 es s5 where
    "spawnEnemies time cv r1 r2 (s\<lparr>lastTime := time\<rparr>) = Some s1"
    "s2 = checkWaveClear time cv s1"
    "stepInterceptors (interceptors s2) s2 = (ps, s3)"
    "stepEnemies (height cv - 40) (enemies s3)
       (s3\<lparr>interceptors := ps, explosions := map stepExplosion (explosions s3)\<rparr>) = Some (es, s5)"
    "s' = cleanup (s5\<lparr>enemies := es, floatingTexts := map stepFloatingText (floatingTexts s5)\<rparr>)"
  using assms
  by (auto simp: update_def Let_def split: option.splits prod.splits)

lemma update_structuresDecay:
  assumes "update time canvas r1 r2 s = Some s'"
  shows "structuresDecay s s' \<and> wave s' = wave s \<and> isEndlessMode s' = isEndlessMode s"
proof (cases "gameState s = PLAYING \<and> canvas \<noteq> None")
  case False
  then have "s' = s\<lparr>lastTime := time\<rparr>"
    using assms by (auto simp: update_def Let_def split: option.splits)
  then show ?thesis by (simp add: structuresDecay_def)
next
  case True
  then obtain cv where cv: "canvas = Some cv" by auto
  from update_playing_decomp [OF assms [unfolded cv]] True
  obtain s1 s2 ps s3 es s5 where
    1: "spawnEnemies time cv r1 r2 (s\<lparr>lastTime := time\<rparr>) = Some s1" and
    2: "s2 = checkWaveClear time cv s1" and
    3: "stepInterceptors (interceptors s2) s2 = (ps, s3)" and
    4: "stepEnemies (height cv - 40) (enemies s3)
       (s3\<lparr>interceptors := ps, explosions := map stepExplosion (explosions s3)\<rparr>) = Some (es, s5)" and
    5: "s' = cleanup (s5\<lparr>enemies := es, floatingTexts := map stepFloatingText (floatingTexts s5)\<rparr>)"
    by metis
  let ?s4 = "s3\<lparr>interceptors := ps, explosions := map stepExplosion (explosions s3)\<rparr>"
  have a: "structuresDecay s ?s4"
    using spawnEnemies_fields [OF 1] 2 stepInterceptors_fields [OF 3]
    by (simp add: structuresDecay_def)
  have b: "structuresDecay ?s4 s5" using stepEnemies_structuresDecay [OF 4] .
  have c: "structuresDecay s5 s'" using 5 by (simp add: structuresDecay_def)
  have "structuresDecay s s'"
    using structuresDecay_trans [OF a structuresDecay_trans [OF b c]] .
  moreover have "wave s' = wave s \<and> isEndlessMode s' = isEndlessMode s"
    using spawnEnemies_fields [OF 1] 2 stepInterceptors_fields [OF 3] stepEnemies_fields [OF 4] 5
    by simp
  ultimately show ?thesis by simp
qed

subsection \<open>C9: the new-wave reset\<close>

lemma structuresDecay_not_revived:
  "structuresDecay s s1 \<Longrightarrow> \<not> cityRevived s s1"
  unfolding structuresDecay_def cityRevived_def
  by (metis City.select_convs(1) City.surjective City.update_convs(1))

lemma handleInput_cities:
  "handleInput canvas x y s = Some s1 \<Longrightarrow> cities s1 = cities s"
  by (auto simp: handleInput_def Let_def split: if_splits option.splits)

lemma runTimeout_cities: "cities (runTimeout now k s) = cities s"
  by (simp add: runTimeout_def)

lemma nextWave_cities: "cities (nextWave now s) = cities s"
  by (simp add: nextWave_def)

lemma click_revives:
  assumes "cityRevived s (click b now s)"
  shows "(b = StartButton \<or> b = RestartButton) \<and> click b now s = initGame now s"
  using assms
  by (cases b) (auto simp: cityRevived_def nextWave_cities split: if_splits)

text \<open>
  Claim C9. The new-wave transition \<open>nextWave\<close> leaves every tower alive with
  \<open>ammo = maxAmmo\<close> (capacities unchanged), increments the wave counter by exactly
  one and leaves the cities as they are, so a dead city stays dead. The game-start
  reset \<open>initGame\<close> installs six alive cities, and it is the only way a dead city
  becomes alive again: whenever any event (frame tick, tap, button, timer callback)
  revives a city, the event is a click on the start or restart button and the
  resulting state is the one \<open>initGame\<close> produces.
\<close>

theorem nextWave_resets_towers_not_cities:
  "list_all (\<lambda>t. alive t \<and> ammo t = maxAmmo t) (towers (nextWave now s)) \<and>
   map maxAmmo (towers (nextWave now s)) = map maxAmmo (towers s) \<and>
   wave (nextWave now s) = wave s + 1 \<and>
   cities (nextWave now s) = cities s \<and>
   cities (initGame now s) = replicate 6 \<lparr>px = 0, py = 0, alive = True\<rparr> \<and>
   (\<forall>ev s1. step ev s = Some s1 \<and> cityRevived s s1 \<longrightarrow>
      (\<exists>b t. ev = Click b t \<and> (b = StartButton \<or> b = RestartButton) \<and> s1 = initGame t s))"
proof -
  have 1: "list_all (\<lambda>t. alive t \<and> ammo t = maxAmmo t) (towers (nextWave now s))"
    by (simp add: nextWave_def list_all_iff)
  have 2: "map maxAmmo (towers (nextWave now s)) = map maxAmmo (towers s)"
    by (simp add: nextWave_def comp_def)
  have 3: "wave (nextWave now s) = wave s + 1 \<and> cities (nextWave now s) = cities s"
    by (simp add: nextWave_def)
  have 4: "cities (initGame now s) = replicate 6 \<lparr>px = 0, py = 0, alive = True\<rparr>"
    by (simp add: initGame_def initialCities_def)
  have 5: "\<exists>b t. ev = Click b t \<and> (b = StartButton \<or> b = RestartButton) \<and> s1 = initGame t s"
    if st: "step ev s = Some s1" and rev: "cityRevived s s1" for ev s1
  proof (cases ev)
    case (Tick time canvas r1 r2)
    then have "structuresDecay s s1" using st update_structuresDecay by simp
    then show ?thesis using rev structuresDecay_not_revived by blast
  next
    case (Tap canvas x y)
    then have "cities s1 = cities s" using st handleInput_cities by simp
    then show ?thesis using rev by (auto simp: cityRevived_def)
  next
    case (Click b t)
    then have s1: "s1 = click b t s" using st by simp
    then show ?thesis using click_revives [of s b t] rev Click by simp
  next
    case (TimeoutFires t k)
    then have "cities s1 = cities s" using st runTimeout_cities by auto
    then show ?thesis using rev by (auto simp: cityRevived_def)
  qed
  show ?thesis using 1 2 3 4 5 by blast
qed

theorem nextWave_resets_towers_not_cities_witness:
  "step (Click RestartButton 9) ruinedState = Some (initGame 9 ruinedState) \<and>
   cityRevived ruinedState (initGame 9 ruinedState) \<and>
   towers (nextWave 9 ruinedState) =
     [\<lparr>px = 0, py = 0, alive = True, ammo = 20, maxAmmo = 20\<rparr>,
      \<lparr>px = 0, py = 0, alive = True, ammo = 40, maxAmmo = 40\<rparr>,
      \<lparr>px = 0, py = 0, alive = True, ammo = 20, maxAmmo = 20\<rparr>] \<and>
   list_all (\<lambda>t. alive t \<and> ammo t = maxAmmo t) (towers (nextWave 9 ruinedState)) \<and>
   wave (nextWave 9 ruinedState) = 3 \<and>
   list_all (\<lambda>c. \<not> alive c) (cities (nextWave 9 ruinedState)) \<and>
   (\<exists>b t. Click RestartButton 9 = Click b t \<and> (b = StartButton \<or> b = RestartButton))"
proof -
  have a: "step (Click RestartButton 9) ruinedState = Some (initGame 9 ruinedState)"
    by (simp add: ruinedState_def)
  have b: "cityRevived ruinedState (initGame 9 ruinedState)"
    unfolding cityRevived_def
    by (rule exI [of _ 0]) (simp add: ruinedState_def initGame_def initialCities_def)
  have c: "towers (nextWave 9 ruinedState) =
     [\<lparr>px = 0, py = 0, alive = True, ammo = 20, maxAmmo = 20\<rparr>,
      \<lparr>px = 0, py = 0, alive = True, ammo = 40, maxAmmo = 40\<rparr>,
      \<lparr>px = 0, py = 0, alive = True, ammo = 20, maxAmmo = 20\<rparr>]"
    by (simp add: ruinedState_def nextWave_def)
  have d: "wave ruinedState = 2" "list_all (\<lambda>c. \<not> alive c) (cities ruinedState)"
    by (simp_all add: ruinedState_def initialCities_def list_all_iff)
  show ?thesis
    using a b c d nextWave_resets_towers_not_cities [of 9 ruinedState]
    by auto
qed

subsection \<open>An invariant of the reachable states\<close>

lemma checkWaveClear_timeouts:
  "deferredOnly (timeouts s) \<Longrightarrow> deferredOnly (timeouts (checkWaveClear time cv s))"
  by (simp add: checkWaveClear_def Let_def deferredOnly_def)

lemma update_timeouts:
  assumes "update time canvas r1 r2 s = Some s'" and "deferredOnly (timeouts s)"
  shows "deferredOnly (timeouts s')"
proof (cases "gameState s = PLAYING \<and> canvas \<noteq> None")
  case False
  then have "s' = s\<lparr>lastTime := time\<rparr>"
    using assms by (auto simp: update_def Let_def split: option.splits)
  then show ?thesis using assms by simp
next
  case True
  then obtain cv where cv: "canvas = Some cv" by auto
  from update_playing_decomp [OF assms(1) [unfolded cv]] True
  obtain s1 s2 ps s3 es s5 where
    1: "spawnEnemies time cv r1 r2 (s\<lparr>lastTime := time\<rparr>) = Some s1" and
    2: "s2 = checkWaveClear time cv s1" and
    3: "stepInterceptors (interceptors s2) s2 = (ps, s3)" and
    4: "stepEnemies (height cv - 40) (enemies s3)
       (s3\<lparr>interceptors := ps, explosions := map stepExplosion (explosions s3)\<rparr>) = Some (es, s5)" and
    5: "s' = cleanup (s5\<lparr>enemies := es, floatingTexts := map stepFloatingText (floatingTexts s5)\<rparr>)"
    by metis
  have "timeouts s1 = timeouts s" using spawnEnemies_fields [OF 1] by simp
  then have "deferredOnly (timeouts s2)" using 2 assms(2) checkWaveClear_timeouts by simp
  moreover have "timeouts s' = timeouts s2"
    using stepInterceptors_fields [OF 3] stepEnemies_fields [OF 4] 5 by simp
  ultimately show ?thesis by simp
qed

lemma structuresDecay_ammoInRange:
  assumes d: "structuresDecay s s'" and a: "ammoInRange (towers s)"
  shows "ammoInRange (towers s')"
proof -
  have len: "length (towers s') = length (towers s)" using d by (simp add: structuresDecay_def)
  have "0 \<le> ammo (towers s' ! i) \<and> ammo (towers s' ! i) \<le> maxAmmo (towers s' ! i)"
    if i: "i < length (towers s')" for i
  proof -
    have 1: "towers s' ! i = towers s ! i \<or>
        (alive (towers s ! i) \<and> towers s' ! i = (towers s ! i)\<lparr>alive := False, ammo := 0\<rparr>)"
      using d i len by (simp add: structuresDecay_def)
    have 2: "0 \<le> ammo (towers s ! i) \<and> ammo (towers s ! i) \<le> maxAmmo (towers s ! i)"
      using a i len by (simp add: ammoInRange_def list_all_length)
    show ?thesis using 1 2 by auto
  qed
  then show ?thesis by (simp add: ammoInRange_def list_all_length)
qed

lemma update_stateInv:
  assumes u: "update time canvas r1 r2 s = Some s'" and inv: "stateInv s"
  shows "stateInv s'"
proof -
  have d: "structuresDecay s s'" using update_structuresDecay [OF u] by simp
  have t: "deferredOnly (timeouts s')" using update_timeouts [OF u] inv by (simp add: stateInv_def)
  have a: "ammoInRange (towers s')"
    using structuresDecay_ammoInRange [OF d] inv by (simp add: stateInv_def)
  have l: "length (cities s') = 6 \<and> length (towers s') = 3"
    using d inv by (simp add: structuresDecay_def stateInv_def)
  have g: "gameState s' = GAME_OVER \<longrightarrow> allCitiesDead (cities s')"
    using d structuresDecay_allDead [OF d] inv by (auto simp: structuresDecay_def stateInv_def)
  show ?thesis using l t a g by (simp add: stateInv_def)
qed

lemma nearestLoop_chosen:
  "nearestLoop ts x y tps best = Some (Some (n, d)) \<Longrightarrow>
     best = Some (n, d) \<or> qualifies ts n"
proof (induction tps arbitrary: best)
  case Nil
  then show ?case by simp
next
  case (Cons a tps)
  obtain t i where a: "a = (t, i)" by (cases a)
  show ?case
  proof (cases "(case best of None \<Rightarrow> True | Some (n, minDist) \<Rightarrow> tapDist x y t < minDist)
                  \<and> i < length ts \<and> alive (ts ! i) \<and> 0 < ammo (ts ! i)")
    case True
    then have "nearestLoop ts x y tps (Some (i, tapDist x y t)) = Some (Some (n, d))"
      using Cons.prems a by (simp only: nearestLoop_Cons) simp
    from Cons.IH [OF this] True show ?thesis by (auto simp: qualifies_def)
  next
    case False
    then have "nearestLoop ts x y tps best = Some (Some (n, d))"
      using Cons.prems a by (simp only: nearestLoop_Cons) (auto split: if_splits)
    from Cons.IH [OF this] show ?thesis .
  qed
qed

lemma handleInput_cases:
  assumes "handleInput canvas x y s = Some s'"
  shows "s' = s \<or>
    (gameState s = PLAYING \<and>
     (\<exists>n p. qualifies (towers s) n \<and>
        s' = s\<lparr>interceptors := interceptors s @ [p],
               towers := (towers s)[n := (towers s ! n)\<lparr>ammo := ammo (towers s ! n) - 1\<rparr>]\<rparr>))"
proof (cases "gameState s = PLAYING")
  case False
  then show ?thesis using assms by (simp add: handleInput_def)
next
  case True
  show ?thesis
  proof (cases canvas)
    case None
    then show ?thesis using assms True by (simp add: handleInput_def)
  next
    case (Some cv)
    let ?x = "x - rectLeft cv" and ?y = "y - rectTop cv"
    show ?thesis
    proof (cases "nearestLoop (towers s) ?x ?y (inputTowerPositions cv) None")
      case None
      then show ?thesis using assms True Some by (simp add: handleInput_def Let_def)
    next
      case outer: (Some r)
      show ?thesis
      proof (cases r)
        case None
        then show ?thesis using assms True Some outer by (simp add: handleInput_def Let_def)
      next
        case inner: (Some nd)
        obtain n d where nd: "nd = (n, d)" by (cases nd)
        have "qualifies (towers s) n"
          using nearestLoop_chosen [of "towers s" ?x ?y "inputTowerPositions cv" None n d]
            outer inner nd by simp
        then show ?thesis
          using assms True Some outer inner nd
          by (auto simp: handleInput_def Let_def)
      qed
    qed
  qed
qed

lemma handleInput_stateInv:
  assumes h: "handleInput canvas x y s = Some s'" and inv: "stateInv s"
  shows "stateInv s'"
proof -
  from handleInput_cases [OF h] show ?thesis
  proof
    assume "s' = s"
    then show ?thesis using inv by simp
  next
    assume "gameState s = PLAYING \<and>
     (\<exists>n p. qualifies (towers s) n \<and>
        s' = s\<lparr>interceptors := interceptors s @ [p],
               towers := (towers s)[n := (towers s ! n)\<lparr>ammo := ammo (towers s ! n) - 1\<rparr>]\<rparr>)"
    then obtain n p where q: "qualifies (towers s) n" and
      s': "s' = s\<lparr>interceptors := interceptors s @ [p],
               towers := (towers s)[n := (towers s ! n)\<lparr>ammo := ammo (towers s ! n) - 1\<rparr>]\<rparr>"
      and pl: "gameState s = PLAYING"
      by blast
    have "ammoInRange (towers s')"
      using inv q unfolding s' stateInv_def ammoInRange_def qualifies_def list_all_length
      by (auto simp: nth_list_update)
    then show ?thesis using inv pl unfolding s' stateInv_def by simp
  qed
qed

lemma click_stateInv:
  assumes inv: "stateInv s"
  shows "stateInv (click b now s)"
proof -
  have i: "stateInv (initGame now s)"
    using inv by (simp add: stateInv_def initGame_def initialCities_def initialTowers_def
        ammoInRange_def)
  have n: "stateInv (nextWave now s')" if "stateInv s'" for s'
    using that by (fastforce simp: stateInv_def nextWave_def ammoInRange_def list_all_iff)
  have e: "stateInv (s\<lparr>gameState := PLAYING, isEndlessMode := True\<rparr>)"
    using inv by (simp add: stateInv_def)
  show ?thesis
    using inv i n [OF inv] n [OF e] by (cases b) (auto simp: stateInv_def)
qed

lemma runTimeout_stateInv:
  assumes inv: "stateInv s"
  shows "stateInv (runTimeout now k s)"
proof (cases "k < length (timeouts s) \<and> due (timeouts s ! k) \<le> now")
  case False
  then show ?thesis using inv by (auto simp: runTimeout_def)
next
  case True
  have d: "deferredOnly (timeouts s)" using inv by (simp add: stateInv_def)
  then have "sets (timeouts s ! k) = VICTORY \<or> sets (timeouts s ! k) = WAVE_COMPLETE"
    using True by (simp add: deferredOnly_def list_all_length)
  moreover have "deferredOnly (take k (timeouts s) @ drop (Suc k) (timeouts s))"
    using d unfolding deferredOnly_def list_all_iff
    by (auto dest: in_set_takeD in_set_dropD)
  ultimately show ?thesis using inv True by (auto simp: runTimeout_def stateInv_def)
qed

lemma step_stateInv:
  "step ev s = Some s' \<Longrightarrow> stateInv s \<Longrightarrow> stateInv s'"
  by (cases ev)
     (auto intro: update_stateInv handleInput_stateInv click_stateInv runTimeout_stateInv)

lemma reachable_stateInv: "reachable s \<Longrightarrow> stateInv s"
proof (induction rule: reachable.induct)
  case reachable_init
  show ?case
    by (simp add: stateInv_def initialState_def initialCities_def initialTowers_def
        ammoInRange_def deferredOnly_def)
next
  case (reachable_step s ev s1)
  then show ?case using step_stateInv by blast
qed


subsection \<open>C3: the defeat condition\<close>

lemma initialCities_list:
  "initialCities =
     [\<lparr>px = 0, py = 0, alive = True\<rparr>, \<lparr>px = 0, py = 0, alive = True\<rparr>,
      \<lparr>px = 0, py = 0, alive = True\<rparr>, \<lparr>px = 0, py = 0, alive = True\<rparr>,
      \<lparr>px = 0, py = 0, alive = True\<rparr>, \<lparr>px = 0, py = 0, alive = True\<rparr>]"
  by (simp add: initialCities_def numeral_eq_Suc)

text \<open>
  Claim C3. \<open>GAME_OVER\<close> goes with the death of all six cities, in both directions.
  Every reachable state has six cities, and a reachable state whose game state is
  \<open>GAME_OVER\<close> has all of them dead: no run is in GameOver while a city is alive.
  And whenever an event takes a state in which some city is alive to a state in which
  all cities are dead, that is, the last alive city is destroyed, the resulting game
  state is \<open>GAME_OVER\<close>.
\<close>

theorem gameOver_iff_all_cities_dead:
  "(reachable s \<longrightarrow>
      length (cities s) = 6 \<and> (gameState s = GAME_OVER \<longrightarrow> allCitiesDead (cities s))) \<and>
   (\<forall>ev s1. step ev s = Some s1 \<and> \<not> allCitiesDead (cities s) \<and> allCitiesDead (cities s1)
      \<longrightarrow> gameState s1 = GAME_OVER)"
proof -
  have 1: "length (cities s) = 6 \<and> (gameState s = GAME_OVER \<longrightarrow> allCitiesDead (cities s))"
    if "reachable s"
    using reachable_stateInv [OF that] by (simp add: stateInv_def)
  have 2: "gameState s1 = GAME_OVER"
    if st: "step ev s = Some s1" and a: "\<not> allCitiesDead (cities s)"
      and d: "allCitiesDead (cities s1)" for ev s1
  proof (cases ev)
    case (Tick time canvas r1 r2)
    then have "structuresDecay s s1" using st update_structuresDecay by simp
    then show ?thesis using a d by (simp add: structuresDecay_def)
  next
    case (Tap canvas x y)
    then have "cities s1 = cities s" using st handleInput_cities by simp
    then show ?thesis using a d by simp
  next
    case (Click b t)
    have i: "\<not> allCitiesDead (cities (initGame t s))"
      by (simp add: initGame_def initialCities_list allCitiesDead_def)
    have "cities (click b t s) = cities s \<or> click b t s = initGame t s"
      by (cases b) (auto simp: nextWave_cities)
    then show ?thesis using Click st a d i by auto
  next
    case (TimeoutFires t k)
    then have "cities s1 = cities s" using st runTimeout_cities by auto
    then show ?thesis using a d by simp
  qed
  show ?thesis using 1 2 by blast
qed

lemma lastCity_tick:
  "step (Tick 1016 (Some canvas0) 0 0) lastCityState =
     Some (lastCityState\<lparr>gameState := GAME_OVER, lastTime := 1016, enemies := [],
        cities := map (\<lambda>c. c\<lparr>alive := False\<rparr>) initialCities,
        explosions := [\<lparr>px = 160, py = 2776 / 5, radius = 0, maxRadius = 60, growthRate = 4, life = 1\<rparr>]\<rparr>)"
  by (simp add: lastCityState_def playingState_def initGame_def initialState_def canvas0_def
      update_def spawnEnemies_def checkWaveClear_def stepEnemy_def spawnExplosion_def cleanup_def
      initialCities_list initialTowers_def Let_def)


theorem gameOver_iff_all_cities_dead_witness:
  "reachable playingState \<and> length (cities playingState) = 6 \<and>
   \<not> allCitiesDead (cities lastCityState) \<and>
   (\<exists>s1. step (Tick 1016 (Some canvas0) 0 0) lastCityState = Some s1 \<and>
         allCitiesDead (cities s1) \<and> gameState s1 = GAME_OVER)"
proof -
  have "step (Click StartButton 0) initialState = Some playingState"
    by (simp add: playingState_def initialState_def)
  then have r: "reachable playingState"
    using reachable_init reachable_step by blast
  have a: "\<not> allCitiesDead (cities lastCityState)"
    by (simp add: lastCityState_def initialCities_list allCitiesDead_def)
  obtain s1 where st: "step (Tick 1016 (Some canvas0) 0 0) lastCityState = Some s1"
    and d: "allCitiesDead (cities s1)"
    using lastCity_tick by (simp add: initialCities_list allCitiesDead_def)
  show ?thesis
    using r a st d gameOver_iff_all_cities_dead [of playingState]
      gameOver_iff_all_cities_dead [of lastCityState]
    by blast
qed

subsection \<open>C6: ammo monotonicity\<close>

lemma sqrt_less_iff: "0 \<le> a \<Longrightarrow> sqrt a < b \<longleftrightarrow> 0 < b \<and> a < b\<^sup>2"
proof (cases "0 < b")
  case True
  assume "0 \<le> a"
  have "b = sqrt (b\<^sup>2)" using True by simp
  then have "sqrt a < b \<longleftrightarrow> sqrt a < sqrt (b\<^sup>2)" by simp
  then show ?thesis using True by (simp only: real_sqrt_less_iff) simp
next
  case False
  assume "0 \<le> a"
  then have "0 \<le> sqrt a" by simp
  then show ?thesis using False by linarith
qed

lemma less_sqrt_iff: "0 \<le> b \<Longrightarrow> b < sqrt a \<longleftrightarrow> b\<^sup>2 < a"
proof -
  assume b: "0 \<le> b"
  then have "b = sqrt (b\<^sup>2)" by simp
  then have "b < sqrt a \<longleftrightarrow> sqrt (b\<^sup>2) < sqrt a" by simp
  then show ?thesis by (simp only: real_sqrt_less_iff)
qed

lemma distance_less_iff:
  "distance p q < r \<longleftrightarrow> 0 < r \<and> (px q - px p)\<^sup>2 + (py q - py p)\<^sup>2 < r\<^sup>2"
proof (cases "0 < r")
  case True
  then have "r = sqrt (r\<^sup>2)" by simp
  then have "distance p q < r \<longleftrightarrow> sqrt ((px q - px p)\<^sup>2 + (py q - py p)\<^sup>2) < sqrt (r\<^sup>2)"
    by (simp add: distance_def)
  then show ?thesis using True by (simp only: real_sqrt_less_iff) simp
next
  case False
  have "0 \<le> distance p q" by (simp add: distance_def)
  then show ?thesis using False by linarith
qed

lemma ammoSpent_refl: "list_all (\<lambda>t. 0 \<le> ammo t) ts \<Longrightarrow> ammoSpent ts ts"
  by (simp add: ammoSpent_def list_all_length)

lemma ammoSpent_trans: "ammoSpent ts ts1 \<Longrightarrow> ammoSpent ts1 ts2 \<Longrightarrow> ammoSpent ts ts2"
  unfolding ammoSpent_def by (metis order_trans)

lemma ammoSpent_nonneg: "ammoSpent ts ts1 \<Longrightarrow> list_all (\<lambda>t. 0 \<le> ammo t) ts1"
  by (simp add: ammoSpent_def list_all_length)

lemma structuresDecay_ammoSpent:
  assumes d: "structuresDecay s s1" and a: "list_all (\<lambda>t. 0 \<le> ammo t) (towers s)"
  shows "ammoSpent (towers s) (towers s1)"
proof -
  have len: "length (towers s1) = length (towers s)" using d by (simp add: structuresDecay_def)
  have "0 \<le> ammo (towers s1 ! i) \<and> ammo (towers s1 ! i) \<le> ammo (towers s ! i)"
    if i: "i < length (towers s)" for i
  proof -
    have 1: "towers s1 ! i = towers s ! i \<or>
        (alive (towers s ! i) \<and> towers s1 ! i = (towers s ! i)\<lparr>alive := False, ammo := 0\<rparr>)"
      using d i by (simp add: structuresDecay_def)
    have 2: "0 \<le> ammo (towers s ! i)" using a i by (simp add: list_all_length)
    show ?thesis using 1 2 by auto
  qed
  then show ?thesis using len by (simp add: ammoSpent_def)
qed

lemma step_ammoSpent:
  assumes st: "step ev s = Some s1" and nr: "\<not> isReset ev"
    and a: "list_all (\<lambda>t. 0 \<le> ammo t) (towers s)"
  shows "ammoSpent (towers s) (towers s1)"
proof (cases ev)
  case (Tick time canvas r1 r2)
  then have "structuresDecay s s1" using st update_structuresDecay by simp
  then show ?thesis using a structuresDecay_ammoSpent by blast
next
  case (Tap canvas x y)
  then have "handleInput canvas x y s = Some s1" using st by simp
  from handleInput_cases [OF this] show ?thesis
  proof
    assume "s1 = s"
    then show ?thesis using a ammoSpent_refl by simp
  next
    assume "gameState s = PLAYING \<and>
     (\<exists>n p. qualifies (towers s) n \<and>
        s1 = s\<lparr>interceptors := interceptors s @ [p],
               towers := (towers s)[n := (towers s ! n)\<lparr>ammo := ammo (towers s ! n) - 1\<rparr>]\<rparr>)"
    then obtain n p where q: "qualifies (towers s) n" and
      s1: "s1 = s\<lparr>interceptors := interceptors s @ [p],
               towers := (towers s)[n := (towers s ! n)\<lparr>ammo := ammo (towers s ! n) - 1\<rparr>]\<rparr>"
      by blast
    show ?thesis
      using a q unfolding s1 ammoSpent_def qualifies_def list_all_length
      by (auto simp: nth_list_update)
  qed
next
  case (Click b t)
  then have "towers s1 = towers s"
    using st nr by (cases b) (auto split: if_splits)
  then show ?thesis using a ammoSpent_refl by simp
next
  case (TimeoutFires t k)
  then have "towers s1 = towers s" using st by (auto simp: runTimeout_def)
  then show ?thesis using a ammoSpent_refl by simp
qed

lemma run_ammoSpent:
  "run evs s = Some s1 \<Longrightarrow> \<forall>ev \<in> set evs. \<not> isReset ev \<Longrightarrow>
     list_all (\<lambda>t. 0 \<le> ammo t) (towers s) \<Longrightarrow> ammoSpent (towers s) (towers s1)"
proof (induction evs arbitrary: s)
  case Nil
  then show ?case using ammoSpent_refl by simp
next
  case (Cons ev evs)
  from Cons.prems(1) obtain s2 where a: "step ev s = Some s2" and b: "run evs s2 = Some s1"
    by (auto split: option.splits)
  have 1: "ammoSpent (towers s) (towers s2)"
    using step_ammoSpent [OF a] Cons.prems by simp
  have 2: "ammoSpent (towers s2) (towers s1)"
    using Cons.IH [OF b] Cons.prems(2) ammoSpent_nonneg [OF 1] by simp
  show ?case using ammoSpent_trans [OF 1 2] .
qed

lemma reset_refills:
  assumes st: "step ev s = Some s1" and r: "isReset ev" and ch: "towers s1 \<noteq> towers s"
  shows "list_all (\<lambda>t. ammo t = maxAmmo t) (towers s1)"
proof -
  obtain b t where ev: "ev = Click b t" using r by (cases ev) auto
  have i: "list_all (\<lambda>t. ammo t = maxAmmo t) (towers (initGame t s'))" for s'
    by (simp add: initGame_def initialTowers_def)
  have n: "list_all (\<lambda>t. ammo t = maxAmmo t) (towers (nextWave t s'))" for s'
    by (simp add: nextWave_def list_all_iff)
  show ?thesis
    using st ch i n unfolding ev by (cases b) (auto split: if_splits)
qed

text \<open>
  Claim C6, as amended. For every sequence of events that contains no reset (taps,
  frame ticks, pause, resume and quit clicks, timer callbacks), started with no
  negative ammo, every tower's ammo stays non-negative and does not increase. In every
  reachable state no tower's ammo is negative. The only events that increase a
  tower's ammo are the resets: the new-wave reset and the game-start reset, and both
  leave every tower with \<open>ammo = maxAmmo\<close>.
\<close>

theorem ammo_monotone_except_resets:
  "(\<forall>evs s1. run evs s = Some s1 \<and> (\<forall>ev \<in> set evs. \<not> isReset ev) \<and>
        list_all (\<lambda>t. 0 \<le> ammo t) (towers s)
      \<longrightarrow> ammoSpent (towers s) (towers s1)) \<and>
   (reachable s \<longrightarrow> list_all (\<lambda>t. 0 \<le> ammo t) (towers s)) \<and>
   (\<forall>ev s1. step ev s = Some s1 \<and> list_all (\<lambda>t. 0 \<le> ammo t) (towers s) \<and>
        ammoRaised (towers s) (towers s1)
      \<longrightarrow> isReset ev \<and> list_all (\<lambda>t. ammo t = maxAmmo t) (towers s1))"
proof -
  have 1: "ammoSpent (towers s) (towers s1)"
    if "run evs s = Some s1" "\<forall>ev \<in> set evs. \<not> isReset ev"
      "list_all (\<lambda>t. 0 \<le> ammo t) (towers s)" for evs s1
    using run_ammoSpent that by blast
  have 2: "list_all (\<lambda>t. 0 \<le> ammo t) (towers s)" if "reachable s"
    using reachable_stateInv [OF that]
    by (simp add: stateInv_def ammoInRange_def list_all_iff)
  have 3: "isReset ev \<and> list_all (\<lambda>t. ammo t = maxAmmo t) (towers s1)"
    if st: "step ev s = Some s1" and a: "list_all (\<lambda>t. 0 \<le> ammo t) (towers s)"
      and up: "ammoRaised (towers s) (towers s1)" for ev s1
  proof -
    have r: "isReset ev"
    proof (rule ccontr)
      assume "\<not> isReset ev"
      from step_ammoSpent [OF st this a] up show False
        by (auto simp: ammoSpent_def ammoRaised_def)
    qed
    have "towers s1 \<noteq> towers s" using up by (auto simp: ammoRaised_def)
    from reset_refills [OF st r this] r show ?thesis by simp
  qed
  show ?thesis using 1 2 3 by blast
qed

text \<open>
  The claim as stated names the new-wave reset as the only operation that increases
  ammo. The restart button increases it too: in a lost game whose first tower has 3
  ammo left, the click runs \<open>initGame\<close>, the tower has 20 afterwards, and the wave
  counter goes from 2 back to 1, so this is not the new-wave transition.
\<close>

theorem restart_refills_ammo:
  "ammo (towers ruinedState ! 0) = 3 \<and>
   step (Click RestartButton 9) ruinedState = Some (initGame 9 ruinedState) \<and>
   ammo (towers (initGame 9 ruinedState) ! 0) = 20 \<and>
   wave ruinedState = 2 \<and> wave (initGame 9 ruinedState) = 1"
  by (simp add: ruinedState_def initGame_def initialTowers_def)

lemma tap_tick_run:
  "run [Tap (Some canvas0) 400 100, Tick 16 (Some canvas0) 0 0] playingState =
    Some (playingState\<lparr>lastTime := 16,
       interceptors := [\<lparr>px = 400, py = 525, vx = 0, vy = - 15, dead = False,
          target = \<lparr>px = 400, py = 100\<rparr>, ispeed = 15,
          itrail = [\<lparr>px = 400, py = 525\<rparr>], originTowerIndex = 1\<rparr>],
       towers := [\<lparr>px = 0, py = 0, alive = True, ammo = 20, maxAmmo = 20\<rparr>,
                  \<lparr>px = 0, py = 0, alive = True, ammo = 39, maxAmmo = 40\<rparr>,
                  \<lparr>px = 0, py = 0, alive = True, ammo = 20, maxAmmo = 20\<rparr>]\<rparr>)"
  by (simp add: playingState_def initGame_def initialState_def canvas0_def
      handleInput_def inputTowerPositions_def atan2_def
      update_def spawnEnemies_def checkWaveClear_def stepInterceptor_def spawnExplosion_def cleanup_def
      initialCities_list initialTowers_def Let_def distance_less_iff sqrt_less_iff less_sqrt_iff)

theorem ammo_monotone_except_resets_witness:
  "\<not> isReset (Tap (Some canvas0) 400 100) \<and> \<not> isReset (Tick 16 (Some canvas0) 0 0) \<and>
   list_all (\<lambda>t. 0 \<le> ammo t) (towers playingState) \<and>
   (\<exists>s1. run [Tap (Some canvas0) 400 100, Tick 16 (Some canvas0) 0 0] playingState = Some s1 \<and>
      map ammo (towers playingState) = [20, 40, 20] \<and> map ammo (towers s1) = [20, 39, 20] \<and>
      ammoSpent (towers playingState) (towers s1))"
proof -
  have a: "list_all (\<lambda>t. 0 \<le> ammo t) (towers playingState)"
    by (simp add: playingState_def initGame_def initialTowers_def)
  have b: "map ammo (towers playingState) = [20, 40, 20]"
    by (simp add: playingState_def initGame_def initialTowers_def)
  obtain s1 where r: "run [Tap (Some canvas0) 400 100, Tick 16 (Some canvas0) 0 0] playingState = Some s1"
    and c: "map ammo (towers s1) = [20, 39, 20]"
    using tap_tick_run by simp
  have n: "\<forall>ev \<in> set [Tap (Some canvas0) 400 100, Tick 16 (Some canvas0) 0 0]. \<not> isReset ev"
    by simp
  have "ammoSpent (towers playingState) (towers s1)"
    using ammo_monotone_except_resets [of playingState] r n a by blast
  then show ?thesis using a b c r by simp
qed

subsection \<open>C7: the transitions of the state machine\<close>

lemma handleInput_gameState:
  "handleInput canvas x y s = Some s1 \<Longrightarrow> gameState s1 = gameState s"
  using handleInput_cases by fastforce

lemma click_transitions:
  "rendered b (gameState s) \<Longrightarrow>
   gameState (click b now s) = gameState s \<or>
   (gameState s, gameState (click b now s)) \<in> set specTransitions \<or>
   (gameState s, gameState (click b now s)) = (PAUSED, MENU)"
  by (cases b) (auto simp: specTransitions_def initGame_def nextWave_def)

text \<open>
  Claim C7, as amended. Every change of the game state made by a frame tick, a tap,
  the pause button, or an overlay button clicked in the state that renders its
  overlay is one of the listed transitions or the quit transition from \<open>PAUSED\<close> to
  \<open>MENU\<close>. A deferred wave-clear callback that runs while the game is \<open>PLAYING\<close> leads
  to \<open>WAVE_COMPLETE\<close> or \<open>VICTORY\<close> (or does nothing when it is not due). The two
  actions whose code tests the game state are no-ops where the test fails: a tap
  outside \<open>PLAYING\<close> and a click on the pause button outside \<open>PLAYING\<close> and \<open>PAUSED\<close>
  return the state unchanged.
\<close>

theorem transitions_of_actions_and_ticks:
  "(\<forall>ev s1. step ev s = Some s1 \<and> \<not> isTimeout ev \<and> inPlace ev (gameState s) \<longrightarrow>
      gameState s1 = gameState s \<or>
      (gameState s, gameState s1) \<in> set specTransitions \<or>
      (gameState s, gameState s1) = (PAUSED, MENU)) \<and>
   (\<forall>now k. gameState s = PLAYING \<and> deferredOnly (timeouts s) \<longrightarrow>
      gameState (runTimeout now k s) = PLAYING \<or>
      gameState (runTimeout now k s) = WAVE_COMPLETE \<or>
      gameState (runTimeout now k s) = VICTORY) \<and>
   (\<forall>ev. turnedAway ev (gameState s) \<longrightarrow> step ev s = Some s)"
proof -
  have 1: "gameState s1 = gameState s \<or>
      (gameState s, gameState s1) \<in> set specTransitions \<or>
      (gameState s, gameState s1) = (PAUSED, MENU)"
    if st: "step ev s = Some s1" and nt: "\<not> isTimeout ev"
      and ip: "inPlace ev (gameState s)" for ev s1
  proof (cases ev)
    case (Tick time canvas r1 r2)
    then have u: "update time canvas r1 r2 s = Some s1" using st by simp
    show ?thesis
    proof (cases "gameState s = PLAYING")
      case True
      have "gameState s1 = gameState s \<or> gameState s1 = GAME_OVER"
        using update_structuresDecay [OF u] by (simp add: structuresDecay_def)
      then show ?thesis using True by (auto simp: specTransitions_def)
    next
      case False
      then show ?thesis using u by (auto simp: update_def Let_def split: option.splits)
    qed
  next
    case (Tap canvas x y)
    then show ?thesis using st handleInput_gameState by simp
  next
    case (Click b t)
    then have "rendered b (gameState s)" using ip by simp
    from click_transitions [OF this, of t] show ?thesis using Click st by auto
  next
    case (TimeoutFires t k)
    then show ?thesis using nt by simp
  qed
  have 2: "gameState (runTimeout now k s) = PLAYING \<or>
      gameState (runTimeout now k s) = WAVE_COMPLETE \<or>
      gameState (runTimeout now k s) = VICTORY"
    if "gameState s = PLAYING" "deferredOnly (timeouts s)" for now k
    using that by (auto simp: runTimeout_def deferredOnly_def list_all_length)
  have 3: "step ev s = Some s" if ta: "turnedAway ev (gameState s)" for ev
  proof (cases ev)
    case (Tick time canvas r1 r2)
    then show ?thesis using ta by simp
  next
    case (Tap canvas x y)
    then show ?thesis using ta by (simp add: handleInput_def)
  next
    case (Click b t)
    then show ?thesis using ta by (cases b) simp_all
  next
    case (TimeoutFires t k)
    then show ?thesis using ta by simp
  qed
  show ?thesis using 1 2 3 by blast
qed

text \<open>
  The claim as stated fails twice. The quit button of the pause overlay takes
  \<open>PAUSED\<close> to \<open>MENU\<close>, which is not among the listed transitions. And the handler
  of the next-wave button has no state test: run while the game is \<open>PLAYING\<close> it is
  not a no-op, the wave counter goes from 1 to 2.
\<close>

theorem quit_leaves_paused_for_menu:
  "gameState pausedState = PAUSED \<and>
   step (Click QuitButton 5) pausedState = Some (pausedState\<lparr>gameState := MENU\<rparr>) \<and>
   (PAUSED, MENU) \<notin> set specTransitions \<and>
   gameState playingState = PLAYING \<and> wave playingState = 1 \<and>
   step (Click NextWaveButton 5) playingState = Some (nextWave 5 playingState) \<and>
   wave (nextWave 5 playingState) = 2"
  by (simp add: pausedState_def playingState_def initGame_def nextWave_def
      initialState_def specTransitions_def)

theorem transitions_of_actions_and_ticks_witness:
  "step (Click QuitButton 5) pausedState = Some (pausedState\<lparr>gameState := MENU\<rparr>) \<and>
   \<not> isTimeout (Click QuitButton 5) \<and> inPlace (Click QuitButton 5) (gameState pausedState) \<and>
   (gameState pausedState, gameState (pausedState\<lparr>gameState := MENU\<rparr>)) = (PAUSED, MENU) \<and>
   gameState playingState = PLAYING \<and> deferredOnly (timeouts playingState) \<and>
   gameState (runTimeout 5 0 playingState) = PLAYING \<and>
   turnedAway (Tap (Some canvas0) 400 100) (gameState pausedState) \<and>
   step (Tap (Some canvas0) 400 100) pausedState = Some pausedState \<and>
   turnedAway (Click PauseButton 5) (gameState initialState) \<and>
   step (Click PauseButton 5) initialState = Some initialState"
proof -
  have a: "step (Click QuitButton 5) pausedState = Some (pausedState\<lparr>gameState := MENU\<rparr>)"
    and b: "gameState pausedState = PAUSED"
    by (simp_all add: pausedState_def playingState_def initGame_def)
  have c: "gameState playingState = PLAYING" "deferredOnly (timeouts playingState)"
    by (simp_all add: playingState_def initGame_def initialState_def deferredOnly_def)
  have d: "gameState (runTimeout 5 0 playingState) = PLAYING"
    by (simp add: runTimeout_def playingState_def initGame_def initialState_def)
  have e: "turnedAway (Tap (Some canvas0) 400 100) (gameState pausedState)"
    using b by simp
  have f: "turnedAway (Click PauseButton 5) (gameState initialState)"
    by (simp add: initialState_def)
  have g: "inPlace (Click QuitButton 5) (gameState pausedState)" using b by simp
  have h: "step (Tap (Some canvas0) 400 100) pausedState = Some pausedState"
    using e transitions_of_actions_and_ticks [of pausedState] by blast
  have i: "step (Click PauseButton 5) initialState = Some initialState"
    using f transitions_of_actions_and_ticks [of initialState] by blast
  show ?thesis
    using a b c d e f g h i by simp
qed

subsection \<open>C1: the end-of-wave bonus\<close>

text \<open>
  Claim C1 says that the end-of-wave bonus is added to the score exactly once per
  wave completion. The settlement clears \<open>isWaveClearing\<close> while the game stays
  \<open>PLAYING\<close> for the two seconds of the deferred transition, and the score still
  reaches the target of the wave, so the next tick sets the flag again and settles
  again. In the scenario of the claim the bonus is 50; two consecutive frames, 16 ms
  apart, take the score from 600 to 700 and schedule two transitions.
\<close>

theorem wave_bonus_added_twice:
  "waveBonusOf (towers bonusState) = 50 \<and>
   run [Tick 10800 (Some canvas0) 0 0, Tick 10816 (Some canvas0) 0 0] bonusState =
     Some (bonusState\<lparr>score := 700, waveBonus := 50, lastTime := 10816, isWaveClearing := False,
        timeouts := [\<lparr>due = 12800, sets = WAVE_COMPLETE\<rparr>, \<lparr>due = 12816, sets = WAVE_COMPLETE\<rparr>],
        floatingTexts := [\<lparr>px = 400, py = 298, amount = 50, ftLife = 97 / 100, ftVy = - 1\<rparr>,
                          \<lparr>px = 400, py = 299, amount = 50, ftLife = 197 / 200, ftVy = - 1\<rparr>]\<rparr>)"
  by (simp add: bonusState_def canvas0_def update_def spawnEnemies_def checkWaveClear_def
      waveBonusOf_def addScore_def cleanup_def stepFloatingText_def Let_def)

subsection \<open>C2: a reset and the pending deferred transition\<close>

text \<open>
  Claim C2 says that a deferred transition scheduled before a full reset never takes
  effect in the reset game. \<open>initGame\<close> does not touch the pending callbacks: the
  settlement at time 10800 schedules the transition for 12800; the player pauses,
  quits to the menu and starts a new game at 11500; at 12800 the callback of the
  previous run puts the fresh game (score 0, wave 1) into \<open>WAVE_COMPLETE\<close>.
\<close>

theorem stale_timeout_fires_after_reset:
  "run [Tick 10800 (Some canvas0) 0 0, Click PauseButton 10900, Click QuitButton 11000,
        Click StartButton 11500, TimeoutFires 12800 0] bonusState =
     Some ((initGame 11500 bonusState)\<lparr>gameState := WAVE_COMPLETE, waveBonus := 50\<rparr>) \<and>
   score (initGame 11500 bonusState) = 0 \<and> wave (initGame 11500 bonusState) = 1 \<and>
   gameState (initGame 11500 bonusState) = PLAYING"
  by (simp add: bonusState_def canvas0_def update_def spawnEnemies_def checkWaveClear_def
      waveBonusOf_def addScore_def cleanup_def stepFloatingText_def Let_def
      initGame_def runTimeout_def)

subsection \<open>C4: the time delta\<close>

lemma stepInterceptor_advanced:
  "stepInterceptor p s = (p', s') \<Longrightarrow> advanced p p'"
  by (auto simp: stepInterceptor_def Let_def advanced_def split: if_splits)

lemma stepInterceptors_advanced:
  "stepInterceptors ps s = (ps', s') \<Longrightarrow> list_all2 advanced ps ps'"
proof (induction ps arbitrary: s ps' s')
  case Nil
  then show ?case by simp
next
  case (Cons p ps)
  obtain p1 s1 where a: "stepInterceptor p s = (p1, s1)" by (cases "stepInterceptor p s")
  obtain ps2 s2 where b: "stepInterceptors ps s1 = (ps2, s2)" by (cases "stepInterceptors ps s1")
  have "ps' = p1 # ps2" using Cons.prems a b by simp
  then show ?case using Cons.IH [OF b] stepInterceptor_advanced [OF a] by simp
qed

lemma stepEnemy_advanced:
  "stepEnemy g e s = Some (e', s') \<Longrightarrow> advanced e e'"
  by (auto simp: stepEnemy_def Let_def advanced_def split: if_splits option.splits)

lemma stepEnemies_advanced:
  "stepEnemies g es s = Some (es', s') \<Longrightarrow> list_all2 advanced es es'"
proof (induction es arbitrary: s es' s')
  case Nil
  then show ?case by simp
next
  case (Cons e es)
  from Cons.prems obtain e1 s1 es2 where
    a: "stepEnemy g e s = Some (e1, s1)" and b: "stepEnemies g es s1 = Some (es2, s')"
    and c: "es' = e1 # es2"
    by (auto split: option.splits)
  show ?case using Cons.IH [OF b] stepEnemy_advanced [OF a] c by simp
qed

lemma spawnEnemies_enemies:
  "spawnEnemies time cv r1 r2 s = Some s1 \<Longrightarrow>
     \<exists>new. length new \<le> 1 \<and> enemies s1 = enemies s @ new"
  by (auto simp: spawnEnemies_def Let_def split: if_splits)

text \<open>
  Claim C4, as amended. Each step derives the time delta from the timestamp and
  clamps it to 50, but the clamped delta is not used: the result of the step does not
  depend on the previous timestamp at all, and a step in \<open>PLAYING\<close> moves every
  interceptor and every projectile (the one spawned in this step included) by exactly
  its velocity vector before the dead ones are culled. So the displacement in a step
  is one frame's travel, whatever the raw delta.
\<close>

theorem entities_advance_by_velocity:
  "safeDt time s \<le> 50 \<and> safeDt time s \<le> time - lastTime s \<and>
   update time canvas r1 r2 (s\<lparr>lastTime := t0\<rparr>) = update time canvas r1 r2 s \<and>
   (\<forall>cv s'. update time (Some cv) r1 r2 s = Some s' \<and> gameState s = PLAYING \<longrightarrow>
      (\<exists>ps. list_all2 advanced (interceptors s) ps \<and>
            interceptors s' = filter (\<lambda>p. \<not> dead p) ps) \<and>
      (\<exists>new es. length new \<le> 1 \<and> list_all2 advanced (enemies s @ new) es \<and>
            enemies s' = filter (\<lambda>e. \<not> dead e) es))"
proof -
  have 1: "safeDt time s \<le> 50 \<and> safeDt time s \<le> time - lastTime s"
    by (simp add: safeDt_def Let_def)
  have 2: "update time canvas r1 r2 (s\<lparr>lastTime := t0\<rparr>) = update time canvas r1 r2 s"
    by (simp add: update_def Let_def)
  have 3: "(\<exists>ps. list_all2 advanced (interceptors s) ps \<and>
            interceptors s' = filter (\<lambda>p. \<not> dead p) ps) \<and>
      (\<exists>new es. length new \<le> 1 \<and> list_all2 advanced (enemies s @ new) es \<and>
            enemies s' = filter (\<lambda>e. \<not> dead e) es)"
    if u: "update time (Some cv) r1 r2 s = Some s'" and pl: "gameState s = PLAYING" for cv s'
  proof -
    from update_playing_decomp [OF u pl]
    obtain s1 s2 ps s3 es s5 where
      a: "spawnEnemies time cv r1 r2 (s\<lparr>lastTime := time\<rparr>) = Some s1" and
      b: "s2 = checkWaveClear time cv s1" and
      c: "stepInterceptors (interceptors s2) s2 = (ps, s3)" and
      d: "stepEnemies (height cv - 40) (enemies s3)
         (s3\<lparr>interceptors := ps, explosions := map stepExplosion (explosions s3)\<rparr>) = Some (es, s5)" and
      e: "s' = cleanup (s5\<lparr>enemies := es, floatingTexts := map stepFloatingText (floatingTexts s5)\<rparr>)"
      by metis
    have i2: "interceptors s2 = interceptors s"
      using spawnEnemies_fields [OF a] b by simp
    have "interceptors s5 = ps" using stepEnemies_fields [OF d] by simp
    then have i': "interceptors s' = filter (\<lambda>p. \<not> dead p) ps" using e by (simp add: cleanup_def)
    have ia: "list_all2 advanced (interceptors s) ps"
      using stepInterceptors_advanced [OF c] i2 by simp
    obtain new where n: "length new \<le> 1" and e1: "enemies s1 = enemies s @ new"
      using spawnEnemies_enemies [OF a] by auto
    have "enemies s3 = enemies s @ new"
      using stepInterceptors_fields [OF c] b e1 by simp
    then have ea: "list_all2 advanced (enemies s @ new) es"
      using stepEnemies_advanced [OF d] by simp
    have e': "enemies s' = filter (\<lambda>e. \<not> dead e) es" using e by (simp add: cleanup_def)
    show ?thesis using i' ia n ea e' by blast
  qed
  show ?thesis using 1 2 3 by blast
qed

lemma flight_tick:
  "time < 1850 \<Longrightarrow> update time (Some canvas0) 0 0 flightState =
     Some (flightState\<lparr>lastTime := time,
       interceptors := [\<lparr>px = 400, py = 525, vx = 0, vy = - 15, dead = False,
          target = \<lparr>px = 400, py = 100\<rparr>, ispeed = 15,
          itrail = [\<lparr>px = 400, py = 525\<rparr>], originTowerIndex = 1\<rparr>]\<rparr>)"
  by (simp add: flightState_def playingState_def initGame_def initialState_def canvas0_def
      update_def spawnEnemies_def checkWaveClear_def stepInterceptor_def cleanup_def
      initialCities_list initialTowers_def Let_def distance_less_iff)

text \<open>
  The claim as stated fails: with clamped deltas of 16, 32 and 50 (the last from a raw
  delta of 1000) the interceptor moves from (400, 540) to (400, 525) each time. The
  displacement is not proportional to the clamped delta.
\<close>

theorem displacement_ignores_delta:
  "safeDt 16 flightState = 16 \<and> safeDt 32 flightState = 32 \<and> safeDt 1000 flightState = 50 \<and>
   positions (interceptors flightState) = [(400, 540)] \<and>
   map_option (\<lambda>s. positions (interceptors s)) (update 16 (Some canvas0) 0 0 flightState)
     = Some [(400, 525)] \<and>
   map_option (\<lambda>s. positions (interceptors s)) (update 32 (Some canvas0) 0 0 flightState)
     = Some [(400, 525)] \<and>
   map_option (\<lambda>s. positions (interceptors s)) (update 1000 (Some canvas0) 0 0 flightState)
     = Some [(400, 525)]"
  by (simp add: flight_tick positions_def)
     (simp add: safeDt_def flightState_def playingState_def initGame_def)

theorem entities_advance_by_velocity_witness:
  "gameState flightState = PLAYING \<and>
   (\<exists>s'. update 1000 (Some canvas0) 0 0 flightState = Some s' \<and>
      (\<exists>ps. list_all2 advanced (interceptors flightState) ps \<and>
            interceptors s' = filter (\<lambda>p. \<not> dead p) ps)) \<and>
   safeDt 1000 flightState \<le> 50"
proof -
  have pl: "gameState flightState = PLAYING"
    by (simp add: flightState_def playingState_def initGame_def)
  obtain s' where u: "update 1000 (Some canvas0) 0 0 flightState = Some s'"
    using flight_tick [of 1000] by simp
  show ?thesis
    using pl u entities_advance_by_velocity [of 1000 flightState "Some canvas0" 0 0 0]
    by blast
qed

subsection \<open>C8: blasts, first match and the chain reaction\<close>

lemmas tick_simps = playingState_def initGame_def initialState_def canvas0_def
      update_def spawnEnemies_def checkWaveClear_def stepInterceptor_def stepEnemy_def
      spawnExplosion_def addScore_def stepExplosion_def stepFloatingText_def cleanup_def
      initialCities_list initialTowers_def Let_def distance_less_iff power2_eq_square

lemma blastLoop_None: "blastLoop e exps = None \<longleftrightarrow> (\<forall>b \<in> set exps. \<not> distance e b < radius b)"
  by (induction exps) auto

lemma blastLoop_Some:
  "blastLoop e exps = Some b \<longleftrightarrow>
     (\<exists>pre post. exps = pre @ b # post \<and> distance e b < radius b \<and>
        (\<forall>b' \<in> set pre. \<not> distance e b' < radius b'))"
proof (induction exps)
  case Nil
  then show ?case by simp
next
  case (Cons x exps)
  show ?case
  proof (cases "distance e x < radius x")
    case True
    have "(\<exists>pre post. x # exps = pre @ b # post \<and> distance e b < radius b \<and>
        (\<forall>b' \<in> set pre. \<not> distance e b' < radius b')) \<longleftrightarrow> x = b"
    proof
      assume "\<exists>pre post. x # exps = pre @ b # post \<and> distance e b < radius b \<and>
        (\<forall>b' \<in> set pre. \<not> distance e b' < radius b')"
      then obtain pre post where eq: "x # exps = pre @ b # post"
        and no: "\<forall>b' \<in> set pre. \<not> distance e b' < radius b'" by blast
      show "x = b"
      proof (cases pre)
        case Nil
        then show ?thesis using eq by simp
      next
        case (Cons y ys)
        then have "x \<in> set pre" using eq by simp
        then show ?thesis using no True by blast
      qed
    next
      assume "x = b"
      then have "x # exps = [] @ b # exps \<and> distance e b < radius b" using True by simp
      then show "\<exists>pre post. x # exps = pre @ b # post \<and> distance e b < radius b \<and>
        (\<forall>b' \<in> set pre. \<not> distance e b' < radius b')"
        by (metis empty_iff list.set(1))
    qed
    then show ?thesis using True by auto
  next
    case False
    have "(\<exists>pre post. x # exps = pre @ b # post \<and> distance e b < radius b \<and>
        (\<forall>b' \<in> set pre. \<not> distance e b' < radius b')) \<longleftrightarrow>
       (\<exists>pre post. exps = pre @ b # post \<and> distance e b < radius b \<and>
        (\<forall>b' \<in> set pre. \<not> distance e b' < radius b'))" (is "?L \<longleftrightarrow> ?R")
    proof
      assume ?L
      then obtain pre post where eq: "x # exps = pre @ b # post"
        and hit: "distance e b < radius b"
        and no: "\<forall>b' \<in> set pre. \<not> distance e b' < radius b'" by blast
      show ?R
      proof (cases pre)
        case Nil
        then show ?thesis using eq hit False by simp
      next
        case (Cons y ys)
        then have "exps = ys @ b # post" and "\<forall>b' \<in> set ys. \<not> distance e b' < radius b'"
          using eq no by simp_all
        then show ?thesis using hit by blast
      qed
    next
      assume ?R
      then obtain pre post where eq: "exps = pre @ b # post"
        and hit: "distance e b < radius b"
        and no: "\<forall>b' \<in> set pre. \<not> distance e b' < radius b'" by blast
      have "x # exps = (x # pre) @ b # post" using eq by simp
      moreover have "\<forall>b' \<in> set (x # pre). \<not> distance e b' < radius b'"
        using no False by simp
      ultimately show ?L using hit by blast
    qed
    then show ?thesis using False Cons.IH by simp
  qed
qed

lemma stepEnemy_hit:
  assumes "blastLoop (movedEnemy e) (explosions s) = Some b"
  shows "stepEnemy g e s =
     Some ((movedEnemy e)\<lparr>dead := True\<rparr>,
           s\<lparr>score := score s + 20,
             floatingTexts := floatingTexts s @
               [\<lparr>px = px (movedEnemy e), py = py (movedEnemy e),
                 amount = 20, ftLife = 1, ftVy = - 1\<rparr>],
             explosions := explosions s @
               [\<lparr>px = px (movedEnemy e), py = py (movedEnemy e),
                 radius = 0, maxRadius = 60, growthRate = 4, life = 1\<rparr>]\<rparr>)"
  using assms
  by (simp add: stepEnemy_def movedEnemy_def Let_def spawnExplosion_def addScore_def)


lemma chain_run_14:
  "\<exists>s1. run (take 14 chainTicks) chainState = Some s1 \<and> score s1 = 0 \<and>
     positions (enemies s1) = [(458, 1494 / 5), (462, 1494 / 5)] \<and>
     positions (interceptors s1) = [] \<and>
     blastDiscs (explosions s1) = [(400, 300, 56)]"
  by (simp add: chainState_def chainTicks_def tick_simps positions_def blastDiscs_def)

lemma chain_run_15:
  "\<exists>s1. run (take 15 chainTicks) chainState = Some s1 \<and> score s1 = 20 \<and>
     positions (enemies s1) = [(462, 300)] \<and>
     blastDiscs (explosions s1) = [(400, 300, 60), (458, 300, 0)]"
  by (simp add: chainState_def chainTicks_def tick_simps positions_def blastDiscs_def)

lemma chain_run_17:
  "\<exists>s1. run chainTicks chainState = Some s1 \<and> score s1 = 40 \<and>
     enemies s1 = [] \<and>
     blastDiscs (explosions s1) = [(400, 300, 60), (458, 300, 8), (462, 1512 / 5, 0)]"
  by (simp add: chainState_def chainTicks_def tick_simps positions_def blastDiscs_def)


lemma inBlast_iff: "inBlast B e \<longleftrightarrow> blastLoop (movedEnemy e) B \<noteq> None"
  by (simp add: inBlast_def blastLoop_None list_ex_iff)

lemma distance_nonneg: "0 \<le> distance p q"
  by (simp add: distance_def)

lemma blastLoop_append_fresh:
  assumes "list_all (\<lambda>b. radius b = 0) Z"
  shows "blastLoop e (B @ Z) = None \<longleftrightarrow> blastLoop e B = None"
proof -
  have "\<not> distance e b < radius b" if "b \<in> set Z" for b
    using assms that distance_nonneg [of e b] by (auto simp: list_all_iff)
  then show ?thesis by (auto simp: blastLoop_None)
qed

lemma dead_update_idem: "dead (e::Enemy) \<Longrightarrow> e\<lparr>dead := True\<rparr> = e"
  by (cases e) simp

lemma movedEnemy_fields [simp]:
  "dead (movedEnemy e) = dead e" "targetIndex (movedEnemy e) = targetIndex e"
  "px (movedEnemy e) = px e + vx e" "py (movedEnemy e) = py e + vy e"
  by (simp_all add: movedEnemy_def Let_def)

lemma stepEnemy_alt:
  "stepEnemy groundY e s =
     (let e3 = movedEnemy e;
          (e4, s1) = (case blastLoop e3 (explosions s) of
                        Some ex \<Rightarrow>
                          (e3\<lparr>dead := True\<rparr>,
                           spawnExplosion (px e3) (py e3) (addScore 20 (px e3) (py e3) s))
                      | None \<Rightarrow> (e3, s))
      in if \<not> dead e4 \<and> py e4 \<ge> groundY - 5 then
           (let e5 = e4\<lparr>dead := True\<rparr>;
                s2 = spawnExplosion (px e5) (py e5) s1
            in if targetIndex e5 < 6 then
                 (let cityIdx = targetIndex e5 in
                  if 0 \<le> cityIdx \<and> nat cityIdx < length (cities s2) then
                    (if alive (cities s2 ! nat cityIdx) then
                       (let s3 = s2\<lparr>cities := (cities s2)[nat cityIdx :=
                                      (cities s2 ! nat cityIdx)\<lparr>alive := False\<rparr>]\<rparr>
                        in if list_all (\<lambda>c. \<not> alive c) (cities s3)
                           then Some (e5, s3\<lparr>gameState := GAME_OVER\<rparr>)
                           else Some (e5, s3))
                     else Some (e5, s2))
                  else None)
               else
                 (let towerIdx = targetIndex e5 - 6 in
                  if nat towerIdx < length (towers s2) then
                    (if alive (towers s2 ! nat towerIdx) then
                       Some (e5, s2\<lparr>towers := (towers s2)[nat towerIdx :=
                                      (towers s2 ! nat towerIdx)\<lparr>alive := False, ammo := 0\<rparr>]\<rparr>)
                     else Some (e5, s2))
                  else None))
         else Some (e4, s1))"
  unfolding stepEnemy_def movedEnemy_def Let_def by (rule refl)

lemma stepEnemy_effect:
  assumes st: "stepEnemy g e s = Some (e', s')"
    and ex: "explosions s = B @ Z" and z: "list_all (\<lambda>b. radius b = 0) Z"
  shows "e' = (if inBlast B e \<or> lands g e then (movedEnemy e)\<lparr>dead := True\<rparr> else movedEnemy e) \<and>
     score s' = score s + (if inBlast B e then 20 else 0) \<and>
     explosions s' = explosions s @
       (if inBlast B e \<or> (\<not> dead e \<and> lands g e)
        then [blastAt (px (movedEnemy e)) (py (movedEnemy e))] else []) \<and>
     (inBlast B e \<or> dead e \<or> \<not> lands g e \<longrightarrow>
        cities s' = cities s \<and> towers s' = towers s \<and> gameState s' = gameState s)"
proof (cases "inBlast B e")
  case True
  then have "blastLoop (movedEnemy e) (explosions s) \<noteq> None"
    using blastLoop_append_fresh [OF z, of "movedEnemy e" B] ex by (simp add: inBlast_iff)
  then obtain b where b: "blastLoop (movedEnemy e) (explosions s) = Some b" by auto
  from stepEnemy_hit [OF b, of g] st True show ?thesis
    by (auto simp: blastAt_def)
next
  case False
  then have n: "blastLoop (movedEnemy e) (explosions s) = None"
    using blastLoop_append_fresh [OF z, of "movedEnemy e" B] ex by (simp add: inBlast_iff)
  show ?thesis
  proof (cases "\<not> dead e \<and> lands g e")
    case True
    have l: "g - 5 \<le> py e + vy e" using True by (simp add: lands_def)
    have "e' = (movedEnemy e)\<lparr>dead := True\<rparr> \<and> score s' = score s \<and>
       explosions s' = explosions s @ [blastAt (px (movedEnemy e)) (py (movedEnemy e))]"
      using st n True l
      by (auto simp: stepEnemy_alt Let_def spawnExplosion_def blastAt_def split: if_splits)
    then show ?thesis using False True by simp
  next
    case nl: False
    have "stepEnemy g e s = Some (movedEnemy e, s)"
      using n nl by (auto simp: stepEnemy_alt Let_def lands_def)
    then have "e' = movedEnemy e" "s' = s" using st by simp_all
    then show ?thesis using False nl by (auto simp: dead_update_idem)
  qed
qed


lemma stepEnemies_effect:
  assumes "stepEnemies g es s = Some (es', s')"
    and "explosions s = B @ Z" and "list_all (\<lambda>b. radius b = 0) Z"
  shows "es' = map (\<lambda>e. if inBlast B e \<or> lands g e
                        then (movedEnemy e)\<lparr>dead := True\<rparr> else movedEnemy e) es \<and>
     score s' = score s + 20 * int (length (filter (inBlast B) es)) \<and>
     explosions s' = explosions s @
       map (\<lambda>e. blastAt (px (movedEnemy e)) (py (movedEnemy e)))
         (filter (\<lambda>e. inBlast B e \<or> (\<not> dead e \<and> lands g e)) es) \<and>
     (list_all (\<lambda>e. inBlast B e \<or> dead e \<or> \<not> lands g e) es \<longrightarrow>
        cities s' = cities s \<and> towers s' = towers s \<and> gameState s' = gameState s)"
  using assms
proof (induction es arbitrary: s Z es' s')
  case Nil
  then show ?case by simp
next
  case (Cons e es)
  from Cons.prems(1) obtain e1 s1 es2 where
    a: "stepEnemy g e s = Some (e1, s1)" and b: "stepEnemies g es s1 = Some (es2, s')"
    and c: "es' = e1 # es2"
    by (auto split: option.splits)
  note ef = stepEnemy_effect [OF a Cons.prems(2) Cons.prems(3)]
  let ?new = "(if inBlast B e \<or> (\<not> dead e \<and> lands g e)
        then [blastAt (px (movedEnemy e)) (py (movedEnemy e))] else [])"
  have ex1: "explosions s1 = B @ (Z @ ?new)" using ef Cons.prems(2) by simp
  have z1: "list_all (\<lambda>b. radius b = 0) (Z @ ?new)"
    using Cons.prems(3) by (simp add: blastAt_def)
  note ih = Cons.IH [OF b ex1 z1]
  show ?case using ef ih c by auto
qed

lemma target_moved [simp]:
  "target ((p::Interceptor)\<lparr>px := a, py := b\<rparr>) = target p"
  by (cases p) simp

lemma stepInterceptor_explosions:
  "explosions (snd (stepInterceptor p s)) =
     explosions s @ (if distance (movedInterceptor p) (target p) < ispeed p
                     then [blastAt (px (target p)) (py (target p))] else [])"
  by (auto simp: stepInterceptor_def movedInterceptor_def Let_def spawnExplosion_def blastAt_def
      distance_def)

lemma stepInterceptors_explosions:
  "explosions (snd (stepInterceptors ps s)) = explosions s @ detonations ps"
proof (induction ps arbitrary: s)
  case Nil
  then show ?case by (simp add: detonations_def)
next
  case (Cons p ps)
  obtain p1 s1 where a: "stepInterceptor p s = (p1, s1)" by (cases "stepInterceptor p s")
  obtain ps2 s2 where b: "stepInterceptors ps s1 = (ps2, s2)" by (cases "stepInterceptors ps s1")
  have "explosions s1 = explosions s @ (if distance (movedInterceptor p) (target p) < ispeed p
                     then [blastAt (px (target p)) (py (target p))] else [])"
    using stepInterceptor_explosions [of p s] a by simp
  moreover have "explosions s2 = explosions s1 @ detonations ps"
    using Cons.IH [of s1] b by simp
  ultimately show ?case using a b by (simp add: detonations_def)
qed

lemma update_every_projectile:
  assumes u: "update time (Some cv) r1 r2 s = Some s'" and pl: "gameState s = PLAYING"
  shows "\<exists>s1. spawnEnemies time cv r1 r2 (s\<lparr>lastTime := time\<rparr>) = Some s1 \<and>
     enemies s' = map movedEnemy
        (filter (\<lambda>e. \<not> dead e \<and> \<not> inBlast (blastsMet s) e \<and> \<not> lands (height cv - 40) e)
           (enemies s1)) \<and>
     score s' = score (checkWaveClear time cv s1) +
        20 * int (length (filter (inBlast (blastsMet s)) (enemies s1))) \<and>
     explosions s' = filter (\<lambda>b. life b > 0) (blastsMet s @
        map (\<lambda>e. blastAt (px (movedEnemy e)) (py (movedEnemy e)))
          (filter (\<lambda>e. inBlast (blastsMet s) e \<or> (\<not> dead e \<and> lands (height cv - 40) e))
             (enemies s1))) \<and>
     (list_all (\<lambda>e. inBlast (blastsMet s) e \<or> dead e \<or> \<not> lands (height cv - 40) e)
        (enemies s1) \<longrightarrow>
        cities s' = cities s \<and> towers s' = towers s \<and> gameState s' = gameState s)"
proof -
  from update_playing_decomp [OF u pl]
  obtain s1 s2 ps s3 es s5 where
    1: "spawnEnemies time cv r1 r2 (s\<lparr>lastTime := time\<rparr>) = Some s1" and
    2: "s2 = checkWaveClear time cv s1" and
    3: "stepInterceptors (interceptors s2) s2 = (ps, s3)" and
    4: "stepEnemies (height cv - 40) (enemies s3)
       (s3\<lparr>interceptors := ps, explosions := map stepExplosion (explosions s3)\<rparr>) = Some (es, s5)" and
    5: "s' = cleanup (s5\<lparr>enemies := es, floatingTexts := map stepFloatingText (floatingTexts s5)\<rparr>)"
    by metis
  let ?B = "blastsMet s"
  let ?g = "height cv - 40"
  let ?s4 = "s3\<lparr>interceptors := ps, explosions := map stepExplosion (explosions s3)\<rparr>"
  have f2: "interceptors s2 = interceptors s" "explosions s2 = explosions s"
    using spawnEnemies_fields [OF 1] 2 by simp_all
  have "explosions s3 = explosions s2 @ detonations (interceptors s2)"
    using stepInterceptors_explosions [of "interceptors s2" s2] 3 by simp
  then have B: "explosions ?s4 = ?B @ []" using f2 by (simp add: blastsMet_def)
  have e3: "enemies s3 = enemies s1" "score ?s4 = score s2"
    using stepInterceptors_fields [OF 3] 2 by simp_all
  have z: "list_all (\<lambda>b. radius b = 0) ([]::Explosion list)" by simp
  note ef = stepEnemies_effect [OF 4 B z]
  let ?f = "\<lambda>e. if inBlast ?B e \<or> lands ?g e
                        then (movedEnemy e)\<lparr>dead := True\<rparr> else movedEnemy e"
  have es: "es = map ?f (enemies s1)" using ef e3 by simp
  have "filter (\<lambda>e. \<not> dead e) (map ?f (enemies s1)) =
      map ?f (filter (\<lambda>e. \<not> dead e \<and> \<not> inBlast ?B e \<and> \<not> lands ?g e) (enemies s1))"
    by (simp add: filter_map comp_def) (rule arg_cong [where f = "map ?f"], rule filter_cong, auto)
  also have "\<dots> = map movedEnemy
      (filter (\<lambda>e. \<not> dead e \<and> \<not> inBlast ?B e \<and> \<not> lands ?g e) (enemies s1))"
    by (rule map_cong) auto
  finally have en: "enemies s' = map movedEnemy
      (filter (\<lambda>e. \<not> dead e \<and> \<not> inBlast ?B e \<and> \<not> lands ?g e) (enemies s1))"
    using 5 es by (simp add: cleanup_def)
  have sc: "score s' = score (checkWaveClear time cv s1) +
        20 * int (length (filter (inBlast ?B) (enemies s1)))"
    using ef e3 5 2 by simp
  have ex: "explosions s' = filter (\<lambda>b. life b > 0) (?B @
        map (\<lambda>e. blastAt (px (movedEnemy e)) (py (movedEnemy e)))
          (filter (\<lambda>e. inBlast ?B e \<or> (\<not> dead e \<and> lands ?g e)) (enemies s1)))"
    using ef e3 5 B by (simp add: cleanup_def)
  have f4: "cities ?s4 = cities s" "towers ?s4 = towers s" "gameState ?s4 = gameState s"
    using spawnEnemies_fields [OF 1] 2 stepInterceptors_fields [OF 3] by simp_all
  have st: "list_all (\<lambda>e. inBlast ?B e \<or> dead e \<or> \<not> lands ?g e) (enemies s1) \<longrightarrow>
        cities s' = cities s \<and> towers s' = towers s \<and> gameState s' = gameState s"
    using ef e3 5 f4 by simp
  show ?thesis using 1 en sc ex st by blast
qed


lemma twin_tick:
  "\<exists>s'. update 1016 (Some canvas0) 0 0 twinState = Some s' \<and> score s' = 40 \<and>
     positions (enemies s') = [(700, 1456 / 5)] \<and>
     blastDiscs (explosions s') = [(400, 300, 60), (410, 1456 / 5, 0), (390, 1456 / 5, 0)]"
  by (simp add: twinState_def tick_simps positions_def blastDiscs_def)

lemma twin_hits:
  "filter (inBlast (blastsMet twinState)) (enemies twinState) = take 2 (enemies twinState)"
  by (simp add: twinState_def playingState_def initGame_def initialState_def blastsMet_def
      detonations_def stepExplosion_def inBlast_def movedEnemy_def Let_def
      distance_less_iff power2_eq_square)

text \<open>
  Claim C8. The blast loop of a projectile returns the first blast, in the order of
  the collection, whose radius exceeds the distance of the (already moved) projectile
  to its centre, and none if no blast does. When there is such a blast the projectile
  is marked dead, exactly 20 is added to the score and a new blast of radius 0 is
  appended at the projectile's position; the ground-contact branch is not taken, so
  cities, towers and game state are untouched whatever the height of the projectile.
  A whole step in \<open>PLAYING\<close> does this to every projectile of the collection (the one
  spawned in the step included): the projectiles that remain are exactly the moved
  ones that were not dead, not inside a blast and not at ground level; the score
  grows by 20 for each projectile inside a blast; and the blasts after the step are
  the blasts the projectiles were tested against followed by one new blast for every
  projectile destroyed by a blast or by the ground, those with no life left removed.
  Since the blast test comes first, a step in which every projectile at ground level
  is inside a blast (or already dead) leaves cities, towers and game state untouched.
  In the chain scenario the blast of the single interceptor destroys the first
  projectile in the fifteenth frame (score 20), the secondary blast left at (458, 300)
  destroys the second one two frames later, where the first blast does not reach it,
  and the score is 40.
\<close>

theorem blast_first_match_and_chain:
  "(blastLoop e exps = None \<longleftrightarrow> (\<forall>b \<in> set exps. \<not> distance e b < radius b)) \<and>
   (\<forall>b. blastLoop e exps = Some b \<longleftrightarrow>
      (\<exists>pre post. exps = pre @ b # post \<and> distance e b < radius b \<and>
         (\<forall>b' \<in> set pre. \<not> distance e b' < radius b'))) \<and>
   (\<forall>b. blastLoop (movedEnemy e) (explosions s) = Some b \<longrightarrow>
      stepEnemy g e s =
        Some ((movedEnemy e)\<lparr>dead := True\<rparr>,
              s\<lparr>score := score s + 20,
                floatingTexts := floatingTexts s @
                  [\<lparr>px = px (movedEnemy e), py = py (movedEnemy e),
                    amount = 20, ftLife = 1, ftVy = - 1\<rparr>],
                explosions := explosions s @
                  [\<lparr>px = px (movedEnemy e), py = py (movedEnemy e),
                    radius = 0, maxRadius = 60, growthRate = 4, life = 1\<rparr>]\<rparr>)) \<and>
   (\<forall>cv s'. update time (Some cv) r1 r2 s = Some s' \<and> gameState s = PLAYING \<longrightarrow>
      (\<exists>s1. spawnEnemies time cv r1 r2 (s\<lparr>lastTime := time\<rparr>) = Some s1 \<and>
         enemies s' = map movedEnemy
           (filter (\<lambda>e. \<not> dead e \<and> \<not> inBlast (blastsMet s) e \<and> \<not> lands (height cv - 40) e)
              (enemies s1)) \<and>
         score s' = score (checkWaveClear time cv s1) +
           20 * int (length (filter (inBlast (blastsMet s)) (enemies s1))) \<and>
         explosions s' = filter (\<lambda>b. life b > 0) (blastsMet s @
           map (\<lambda>e. blastAt (px (movedEnemy e)) (py (movedEnemy e)))
             (filter (\<lambda>e. inBlast (blastsMet s) e \<or> (\<not> dead e \<and> lands (height cv - 40) e))
                (enemies s1))) \<and>
         (list_all (\<lambda>e. inBlast (blastsMet s) e \<or> dead e \<or> \<not> lands (height cv - 40) e)
            (enemies s1) \<longrightarrow>
            cities s' = cities s \<and> towers s' = towers s \<and> gameState s' = gameState s))) \<and>
   (\<exists>s14 s15 s17.
      run (take 14 chainTicks) chainState = Some s14 \<and> score s14 = 0 \<and>
      positions (enemies s14) = [(458, 1494 / 5), (462, 1494 / 5)] \<and>
      positions (interceptors s14) = [] \<and>
      blastDiscs (explosions s14) = [(400, 300, 56)] \<and>
      run (take 15 chainTicks) chainState = Some s15 \<and> score s15 = 20 \<and>
      positions (enemies s15) = [(462, 300)] \<and>
      blastDiscs (explosions s15) = [(400, 300, 60), (458, 300, 0)] \<and>
      run chainTicks chainState = Some s17 \<and> score s17 = 40 \<and> enemies s17 = [] \<and>
      blastDiscs (explosions s17) = [(400, 300, 60), (458, 300, 8), (462, 1512 / 5, 0)])"
proof -
  have 1: "blastLoop e exps = None \<longleftrightarrow> (\<forall>b \<in> set exps. \<not> distance e b < radius b)"
    by (rule blastLoop_None)
  have 2: "\<forall>b. blastLoop e exps = Some b \<longleftrightarrow>
      (\<exists>pre post. exps = pre @ b # post \<and> distance e b < radius b \<and>
         (\<forall>b' \<in> set pre. \<not> distance e b' < radius b'))"
    using blastLoop_Some by blast
  have 3: "\<forall>b. blastLoop (movedEnemy e) (explosions s) = Some b \<longrightarrow>
      stepEnemy g e s =
        Some ((movedEnemy e)\<lparr>dead := True\<rparr>,
              s\<lparr>score := score s + 20,
                floatingTexts := floatingTexts s @
                  [\<lparr>px = px (movedEnemy e), py = py (movedEnemy e),
                    amount = 20, ftLife = 1, ftVy = - 1\<rparr>],
                explosions := explosions s @
                  [\<lparr>px = px (movedEnemy e), py = py (movedEnemy e),
                    radius = 0, maxRadius = 60, growthRate = 4, life = 1\<rparr>]\<rparr>)"
    using stepEnemy_hit by blast
  have 4: "\<forall>cv s'. update time (Some cv) r1 r2 s = Some s' \<and> gameState s = PLAYING \<longrightarrow>
      (\<exists>s1. spawnEnemies time cv r1 r2 (s\<lparr>lastTime := time\<rparr>) = Some s1 \<and>
         enemies s' = map movedEnemy
           (filter (\<lambda>e. \<not> dead e \<and> \<not> inBlast (blastsMet s) e \<and> \<not> lands (height cv - 40) e)
              (enemies s1)) \<and>
         score s' = score (checkWaveClear time cv s1) +
           20 * int (length (filter (inBlast (blastsMet s)) (enemies s1))) \<and>
         explosions s' = filter (\<lambda>b. life b > 0) (blastsMet s @
           map (\<lambda>e. blastAt (px (movedEnemy e)) (py (movedEnemy e)))
             (filter (\<lambda>e. inBlast (blastsMet s) e \<or> (\<not> dead e \<and> lands (height cv - 40) e))
                (enemies s1))) \<and>
         (list_all (\<lambda>e. inBlast (blastsMet s) e \<or> dead e \<or> \<not> lands (height cv - 40) e)
            (enemies s1) \<longrightarrow>
            cities s' = cities s \<and> towers s' = towers s \<and> gameState s' = gameState s))"
    using update_every_projectile by blast
  have 5: "\<exists>s14 s15 s17.
      run (take 14 chainTicks) chainState = Some s14 \<and> score s14 = 0 \<and>
      positions (enemies s14) = [(458, 1494 / 5), (462, 1494 / 5)] \<and>
      positions (interceptors s14) = [] \<and>
      blastDiscs (explosions s14) = [(400, 300, 56)] \<and>
      run (take 15 chainTicks) chainState = Some s15 \<and> score s15 = 20 \<and>
      positions (enemies s15) = [(462, 300)] \<and>
      blastDiscs (explosions s15) = [(400, 300, 60), (458, 300, 0)] \<and>
      run chainTicks chainState = Some s17 \<and> score s17 = 40 \<and> enemies s17 = [] \<and>
      blastDiscs (explosions s17) = [(400, 300, 60), (458, 300, 8), (462, 1512 / 5, 0)]"
    using chain_run_14 chain_run_15 chain_run_17 by blast
  show ?thesis using 1 2 3 4 5 by (intro conjI)
qed

theorem blast_first_match_and_chain_witness:
  "\<not> distance (movedEnemy chainEnemy) (chainBlasts ! 0) < radius (chainBlasts ! 0) \<and>
   distance (movedEnemy chainEnemy) (chainBlasts ! 1) < radius (chainBlasts ! 1) \<and>
   blastLoop (movedEnemy chainEnemy) chainBlasts = Some (chainBlasts ! 1) \<and>
   (\<exists>e' s'. stepEnemy 560 chainEnemy (playingState\<lparr>explosions := chainBlasts\<rparr>) = Some (e', s') \<and>
      dead e' \<and> score s' = 20 \<and> cities s' = cities playingState \<and>
      blastDiscs (explosions s') = [(400, 300, 60), (458, 300, 8), (462, 1512 / 5, 0)]) \<and>
   gameState twinState = PLAYING \<and> score twinState = 0 \<and>
   positions (enemies twinState) = [(410, 290), (390, 290), (700, 290)] \<and>
   filter (inBlast (blastsMet twinState)) (enemies twinState) = take 2 (enemies twinState) \<and>
   (\<exists>s'. update 1016 (Some canvas0) 0 0 twinState = Some s' \<and>
      score s' = 40 \<and> positions (enemies s') = [(700, 1456 / 5)] \<and>
      blastDiscs (explosions s') = [(400, 300, 60), (410, 1456 / 5, 0), (390, 1456 / 5, 0)])"
proof -
  have a: "\<not> distance (movedEnemy chainEnemy) (chainBlasts ! 0) < radius (chainBlasts ! 0)"
    and b: "distance (movedEnemy chainEnemy) (chainBlasts ! 1) < radius (chainBlasts ! 1)"
    by (simp_all add: chainEnemy_def chainBlasts_def movedEnemy_def Let_def distance_less_iff
        power2_eq_square)
  have c: "chainBlasts = [chainBlasts ! 0] @ (chainBlasts ! 1) # []"
    by (simp add: chainBlasts_def)
  have d: "\<forall>b' \<in> set [chainBlasts ! 0].
      \<not> distance (movedEnemy chainEnemy) b' < radius b'"
    using a by simp
  have hit: "blastLoop (movedEnemy chainEnemy) chainBlasts = Some (chainBlasts ! 1)"
    using blast_first_match_and_chain [where e = "movedEnemy chainEnemy" and exps = chainBlasts]
      b c d by blast
  then have "blastLoop (movedEnemy chainEnemy)
      (explosions (playingState\<lparr>explosions := chainBlasts\<rparr>)) = Some (chainBlasts ! 1)"
    by simp
  then have "stepEnemy 560 chainEnemy (playingState\<lparr>explosions := chainBlasts\<rparr>) =
        Some ((movedEnemy chainEnemy)\<lparr>dead := True\<rparr>,
              (playingState\<lparr>explosions := chainBlasts\<rparr>)
               \<lparr>score := score (playingState\<lparr>explosions := chainBlasts\<rparr>) + 20,
                floatingTexts := floatingTexts (playingState\<lparr>explosions := chainBlasts\<rparr>) @
                  [\<lparr>px = px (movedEnemy chainEnemy), py = py (movedEnemy chainEnemy),
                    amount = 20, ftLife = 1, ftVy = - 1\<rparr>],
                explosions := explosions (playingState\<lparr>explosions := chainBlasts\<rparr>) @
                  [\<lparr>px = px (movedEnemy chainEnemy), py = py (movedEnemy chainEnemy),
                    radius = 0, maxRadius = 60, growthRate = 4, life = 1\<rparr>]\<rparr>)"
    using blast_first_match_and_chain
      [where e = chainEnemy and s = "playingState\<lparr>explosions := chainBlasts\<rparr>" and g = 560]
    by blast
  then have e: "\<exists>e' s'. stepEnemy 560 chainEnemy (playingState\<lparr>explosions := chainBlasts\<rparr>) = Some (e', s') \<and>
      dead e' \<and> score s' = 20 \<and> cities s' = cities playingState \<and>
      blastDiscs (explosions s') = [(400, 300, 60), (458, 300, 8), (462, 1512 / 5, 0)]"
    by (simp add: playingState_def initGame_def initialState_def chainBlasts_def chainEnemy_def
        movedEnemy_def Let_def blastDiscs_def)
  have pl: "gameState twinState = PLAYING" and sc0: "score twinState = 0"
    and pos: "positions (enemies twinState) = [(410, 290), (390, 290), (700, 290)]"
    by (simp_all add: twinState_def playingState_def initGame_def positions_def)
  obtain s' where u: "update 1016 (Some canvas0) 0 0 twinState = Some s'"
    and rest: "positions (enemies s') = [(700, 1456 / 5)]"
      "blastDiscs (explosions s') = [(400, 300, 60), (410, 1456 / 5, 0), (390, 1456 / 5, 0)]"
    using twin_tick by blast
  have sp: "spawnEnemies 1016 canvas0 0 0 (twinState\<lparr>lastTime := 1016\<rparr>)
      = Some (twinState\<lparr>lastTime := 1016\<rparr>)"
    by (simp add: spawnEnemies_def twinState_def playingState_def initGame_def
        initialState_def Let_def)
  have cw: "score (checkWaveClear 1016 canvas0 (twinState\<lparr>lastTime := 1016\<rparr>)) = 0"
    by (simp add: checkWaveClear_def twinState_def playingState_def initGame_def
        initialState_def Let_def)
  note every = blast_first_match_and_chain
    [where e = chainEnemy and exps = chainBlasts and g = 560 and s = twinState
       and time = 1016 and ?r1.0 = 0 and ?r2.0 = 0,
     THEN conjunct2, THEN conjunct2, THEN conjunct2, THEN conjunct1]
  from every u pl obtain s1 where
    s1: "spawnEnemies 1016 canvas0 0 0 (twinState\<lparr>lastTime := 1016\<rparr>) = Some s1" and
    sc: "score s' = score (checkWaveClear 1016 canvas0 s1) +
        20 * int (length (filter (inBlast (blastsMet twinState)) (enemies s1)))"
    by blast
  have "s1 = twinState\<lparr>lastTime := 1016\<rparr>" using s1 sp by simp
  then have "score s' = score (checkWaveClear 1016 canvas0 (twinState\<lparr>lastTime := 1016\<rparr>)) +
        20 * int (length (filter (inBlast (blastsMet twinState))
                            (enemies (twinState\<lparr>lastTime := 1016\<rparr>))))"
    using sc by simp
  then have "score s' = 40"
    using cw twin_hits by (simp add: twinState_def)
  then have f: "\<exists>s'. update 1016 (Some canvas0) 0 0 twinState = Some s' \<and>
      score s' = 40 \<and> positions (enemies s') = [(700, 1456 / 5)] \<and>
      blastDiscs (explosions s') = [(400, 300, 60), (410, 1456 / 5, 0), (390, 1456 / 5, 0)]"
    using u rest by blast
  show ?thesis using a b hit e pl sc0 pos twin_hits f by blast
qed

subsection \<open>The step never throws in a reachable state\<close>

lemma aliveIndices_range:
  "i \<in> set (aliveIndices k xs) \<Longrightarrow> 0 \<le> k \<Longrightarrow> k \<le> i \<and> i < k + int (length xs)"
  by (auto simp: aliveIndices_def enumerate_eq_zip in_set_zip split: if_splits)

lemma floor_index:
  assumes "0 \<le> r" "r < 1" "0 < n"
  shows "0 \<le> \<lfloor>r * real n\<rfloor> \<and> nat \<lfloor>r * real n\<rfloor> < n"
proof -
  have a: "0 \<le> r * real n" using assms by simp
  have "r * real n < real n" using assms by simp
  then have "\<lfloor>r * real n\<rfloor> < int n" by (simp add: floor_less_iff)
  moreover have "0 \<le> \<lfloor>r * real n\<rfloor>" using a by simp
  ultimately show ?thesis by linarith
qed

lemma possibleTargets_range:
  assumes "length (cities s) = 6" "length (towers s) = 3"
    and "i \<in> set (aliveIndices 0 (cities s) @ aliveIndices 6 (towers s))"
  shows "0 \<le> i \<and> i < 9"
  using assms aliveIndices_range [of i 0 "cities s"] aliveIndices_range [of i 6 "towers s"]
  by auto

lemma spawnEnemies_targets:
  assumes sp: "spawnEnemies time cv r1 r2 s = Some s1" and inv: "targetsInRange s"
  shows "targetsInRange s1"
proof -
  let ?pt = "aliveIndices 0 (cities s) @ aliveIndices 6 (towers s)"
  let ?k = "\<lfloor>r1 * real (length ?pt)\<rfloor>"
  have len: "length (cities s) = 6" "length (towers s) = 3"
    using inv by (simp_all add: targetsInRange_def)
  show ?thesis
  proof (cases "enemies s1 = enemies s")
    case True
    then show ?thesis using inv spawnEnemies_fields [OF sp] by (simp add: targetsInRange_def)
  next
    case False
    then have k: "0 \<le> ?k" "nat ?k < length ?pt"
      using sp by (auto simp: spawnEnemies_def Let_def split: if_splits)
    have "?pt ! nat ?k \<in> set ?pt" using k(2) by (rule nth_mem)
    then have t: "0 \<le> ?pt ! nat ?k \<and> ?pt ! nat ?k < 9"
      using possibleTargets_range [OF len] by blast
    have "\<exists>e. enemies s1 = enemies s @ [e] \<and> targetIndex e = ?pt ! nat ?k"
      using sp False by (auto simp: spawnEnemies_def Let_def split: if_splits)
    then show ?thesis
      using t inv spawnEnemies_fields [OF sp] by (auto simp: targetsInRange_def)
  qed
qed

lemma spawnEnemies_total:
  assumes r: "0 \<le> r1" "r1 < 1" and inv: "targetsInRange s"
  shows "\<exists>s1. spawnEnemies time cv r1 r2 s = Some s1"
proof -
  let ?pt = "aliveIndices 0 (cities s) @ aliveIndices 6 (towers s)"
  have len: "length (cities s) = 6" "length (towers s) = 3"
    using inv by (simp_all add: targetsInRange_def)
  show ?thesis
  proof (cases "0 < length ?pt")
    case False
    then show ?thesis by (simp add: spawnEnemies_def Let_def)
  next
    case True
    let ?k = "\<lfloor>r1 * real (length ?pt)\<rfloor>"
    have k: "0 \<le> ?k \<and> nat ?k < length ?pt"
      using floor_index [OF r True] .
    then have "?pt ! nat ?k \<in> set ?pt" using nth_mem by blast
    then have t: "0 \<le> ?pt ! nat ?k \<and> ?pt ! nat ?k < 9"
      using possibleTargets_range [OF len] by blast
    have t2: "(if ?pt ! nat ?k < 6 then 0 \<le> ?pt ! nat ?k else ?pt ! nat ?k - 6 < 3)"
      using t by auto
    show ?thesis
      using True k t2 by (simp add: spawnEnemies_def Let_def del: length_append)
  qed
qed

lemma stepEnemy_total:
  assumes len: "length (cities s) = 6" "length (towers s) = 3"
    and rng: "0 \<le> targetIndex e" "targetIndex e < 9"
  shows "\<exists>e' s'. stepEnemy g e s = Some (e', s') \<and> targetIndex e' = targetIndex e"
proof -
  have c: "nat (targetIndex e) < 6" if "targetIndex e < 6"
    using that rng by simp
  have t: "nat (targetIndex e - 6) < 3" if "\<not> targetIndex e < 6"
    using that rng by simp
  show ?thesis
  proof (cases "targetIndex e < 6")
    case True
    then show ?thesis
      using c len rng(1)
      by (simp add: stepEnemy_def Let_def split: option.split)
  next
    case False
    then show ?thesis
      using t len
      by (simp add: stepEnemy_def Let_def split: option.split)
  qed
qed

lemma stepEnemies_total:
  assumes "length (cities s) = 6" "length (towers s) = 3"
    "list_all (\<lambda>e. 0 \<le> targetIndex e \<and> targetIndex e < 9) es"
  shows "\<exists>es' s'. stepEnemies g es s = Some (es', s') \<and>
           list_all (\<lambda>e. 0 \<le> targetIndex e \<and> targetIndex e < 9) es'"
  using assms
proof (induction es arbitrary: s)
  case Nil
  then show ?case by simp
next
  case (Cons e es)
  obtain e1 s1 where a: "stepEnemy g e s = Some (e1, s1)" and t: "targetIndex e1 = targetIndex e"
    using stepEnemy_total [of s e g] Cons.prems by auto
  have "structuresDecay s s1" using stepEnemy_structuresDecay [OF a] .
  then have len: "length (cities s1) = 6" "length (towers s1) = 3"
    using Cons.prems by (simp_all add: structuresDecay_def)
  obtain es2 s2 where b: "stepEnemies g es s1 = Some (es2, s2)"
    and r: "list_all (\<lambda>e. 0 \<le> targetIndex e \<and> targetIndex e < 9) es2"
    using Cons.IH [OF len] Cons.prems by auto
  show ?case using a b r t Cons.prems by simp
qed

lemma stepEnemy_targetIndex:
  "stepEnemy g e s = Some (e', s') \<Longrightarrow> targetIndex e' = targetIndex e"
  by (auto simp: stepEnemy_def Let_def split: if_splits option.splits)

lemma stepEnemies_targetIndex:
  "stepEnemies g es s = Some (es', s') \<Longrightarrow> map targetIndex es' = map targetIndex es"
proof (induction es arbitrary: s es' s')
  case Nil
  then show ?case by simp
next
  case (Cons e es)
  from Cons.prems obtain e1 s1 es2 where
    a: "stepEnemy g e s = Some (e1, s1)" and b: "stepEnemies g es s1 = Some (es2, s')"
    and c: "es' = e1 # es2"
    by (auto split: option.splits)
  show ?case using Cons.IH [OF b] stepEnemy_targetIndex [OF a] c by simp
qed

lemma update_targets:
  assumes u: "update time canvas r1 r2 s = Some s'" and inv: "targetsInRange s"
  shows "targetsInRange s'"
proof (cases "gameState s = PLAYING \<and> canvas \<noteq> None")
  case False
  then have "s' = s\<lparr>lastTime := time\<rparr>"
    using u by (auto simp: update_def Let_def split: option.splits)
  then show ?thesis using inv by (simp add: targetsInRange_def)
next
  case True
  then obtain cv where cv: "canvas = Some cv" by auto
  from update_playing_decomp [OF u [unfolded cv]] True
  obtain s1 s2 ps s3 es s5 where
    1: "spawnEnemies time cv r1 r2 (s\<lparr>lastTime := time\<rparr>) = Some s1" and
    2: "s2 = checkWaveClear time cv s1" and
    3: "stepInterceptors (interceptors s2) s2 = (ps, s3)" and
    4: "stepEnemies (height cv - 40) (enemies s3)
       (s3\<lparr>interceptors := ps, explosions := map stepExplosion (explosions s3)\<rparr>) = Some (es, s5)" and
    5: "s' = cleanup (s5\<lparr>enemies := es, floatingTexts := map stepFloatingText (floatingTexts s5)\<rparr>)"
    by metis
  have inv0: "targetsInRange (s\<lparr>lastTime := time\<rparr>)"
    using inv by (simp add: targetsInRange_def)
  have i1: "targetsInRange s1" using spawnEnemies_targets [OF 1 inv0] .
  have e3: "enemies s3 = enemies s1" using stepInterceptors_fields [OF 3] 2 by simp
  have "map targetIndex es = map targetIndex (enemies s1)"
    using stepEnemies_targetIndex [OF 4] e3 by simp
  then have "set (map targetIndex es) = set (map targetIndex (enemies s1))" by simp
  then have "targetIndex ` set es = targetIndex ` set (enemies s1)" by simp
  moreover have "\<forall>i \<in> targetIndex ` set (enemies s1). 0 \<le> i \<and> i < 9"
    using i1 by (simp add: targetsInRange_def list_all_iff)
  ultimately have "\<forall>i \<in> targetIndex ` set es. 0 \<le> i \<and> i < 9" by simp
  then have "list_all (\<lambda>e. 0 \<le> targetIndex e \<and> targetIndex e < 9) es"
    by (simp add: list_all_iff)
  moreover have "length (cities s') = 6 \<and> length (towers s') = 3"
    using update_structuresDecay [OF u] inv by (simp add: structuresDecay_def targetsInRange_def)
  ultimately show ?thesis using 5 by (simp add: targetsInRange_def cleanup_def list_all_iff)
qed

lemma update_total:
  assumes r: "0 \<le> r1" "r1 < 1" and inv: "targetsInRange s"
  shows "\<exists>s'. update time canvas r1 r2 s = Some s'"
proof (cases "gameState s = PLAYING \<and> canvas \<noteq> None")
  case False
  then have "update time canvas r1 r2 s = Some (s\<lparr>lastTime := time\<rparr>)"
    by (auto simp: update_def Let_def split: option.splits)
  then show ?thesis by simp
next
  case True
  then obtain cv where cv: "canvas = Some cv" by auto
  have inv0: "targetsInRange (s\<lparr>lastTime := time\<rparr>)"
    using inv by (simp add: targetsInRange_def)
  obtain s1 where 1: "spawnEnemies time cv r1 r2 (s\<lparr>lastTime := time\<rparr>) = Some s1"
    using spawnEnemies_total [OF r inv0] by blast
  have i1: "targetsInRange s1" using spawnEnemies_targets [OF 1 inv0] .
  let ?s2 = "checkWaveClear time cv s1"
  obtain ps s3 where 3: "stepInterceptors (interceptors ?s2) ?s2 = (ps, s3)"
    by (cases "stepInterceptors (interceptors ?s2) ?s2")
  let ?s4 = "s3\<lparr>interceptors := ps, explosions := map stepExplosion (explosions s3)\<rparr>"
  have f3: "cities s3 = cities s1" "towers s3 = towers s1" "enemies s3 = enemies s1"
    using stepInterceptors_fields [OF 3] by simp_all
  have "\<exists>es' s'. stepEnemies (height cv - 40) (enemies ?s4) ?s4 = Some (es', s') \<and>
           list_all (\<lambda>e. 0 \<le> targetIndex e \<and> targetIndex e < 9) es'"
    using stepEnemies_total [of ?s4 "enemies ?s4" "height cv - 40"] i1 f3
    by (simp add: targetsInRange_def)
  then obtain es s5 where 4: "stepEnemies (height cv - 40) (enemies ?s4) ?s4 = Some (es, s5)"
    by blast
  show ?thesis
    using True cv 1 3 4 by (simp add: update_def Let_def)
qed

lemma handleInput_total:
  assumes inv: "targetsInRange s"
  shows "\<exists>s'. handleInput canvas x y s = Some s'"
proof (cases "gameState s = PLAYING \<and> canvas \<noteq> None")
  case False
  then have "handleInput canvas x y s = Some s"
    by (auto simp: handleInput_def split: option.splits)
  then show ?thesis by simp
next
  case True
  then obtain cv where cv: "canvas = Some cv" by auto
  have idx: "\<forall>(t, i) \<in> set (inputTowerPositions cv). i < length (towers s)"
    using inv by (auto simp: set_inputTowerPositions targetsInRange_def)
  from nearestLoop_spec [OF idx, of "x - rectLeft cv" "y - rectTop cv" None]
  obtain r where "nearestLoop (towers s) (x - rectLeft cv) (y - rectTop cv)
      (inputTowerPositions cv) None = Some r" by blast
  then show ?thesis
    using True cv by (cases r) (auto simp: handleInput_def Let_def)
qed

lemma handleInput_targets:
  assumes h: "handleInput canvas x y s = Some s'" and inv: "targetsInRange s"
  shows "targetsInRange s'"
  using handleInput_cases [OF h] inv by (auto simp: targetsInRange_def)

lemma click_targetsInRange: "targetsInRange s \<Longrightarrow> targetsInRange (click b now s)"
  by (cases b)
     (auto simp: targetsInRange_def initGame_def nextWave_def initialCities_list initialTowers_def)

lemma step_targets:
  assumes "step ev s = Some s'" "targetsInRange s"
  shows "targetsInRange s'"
proof (cases ev)
  case (Tick time canvas r1 r2)
  then show ?thesis using assms update_targets by simp
next
  case (Tap canvas x y)
  then show ?thesis using assms handleInput_targets by simp
next
  case (Click b t)
  then show ?thesis using assms click_targetsInRange by auto
next
  case (TimeoutFires t k)
  then show ?thesis using assms by (auto simp: targetsInRange_def runTimeout_def)
qed

lemma reachable_targetsInRange: "reachable s \<Longrightarrow> targetsInRange s"
proof (induction rule: reachable.induct)
  case reachable_init
  show ?case
    by (simp add: targetsInRange_def initialState_def initialCities_list initialTowers_def)
next
  case (reachable_step s ev s1)
  then show ?case using step_targets by blast
qed

text \<open>
  In a reachable state no event throws: the \<open>None\<close> branches of the model are
  never taken, provided the random number of a frame lies in its range.
\<close>

lemma step_total:
  assumes "reachable s" "randomInRange ev"
  shows "\<exists>s'. step ev s = Some s'"
proof -
  have inv: "targetsInRange s" using reachable_targetsInRange [OF assms(1)] .
  show ?thesis
  proof (cases ev)
    case (Tick time canvas r1 r2)
    then show ?thesis using assms(2) inv update_total by simp
  next
    case (Tap canvas x y)
    then show ?thesis using inv handleInput_total by simp
  next
    case (Click b t)
    then show ?thesis by simp
  next
    case (TimeoutFires t k)
    then show ?thesis by simp
  qed
qed

end
